theory Spec2Isabelle
  imports Complex_Main "HOL-Library.Word" "HOL-Library.Stream"
begin

unbundle bit_operations_syntax

section \<open>Numbers\<close>

text \<open>
  A JavaScript number is modelled by its exact value: a finite double is the real number
  it denotes, and the three values that are not finite are kept apart. Rounding of
  arithmetic results, overflow to infinity and the sign of zero are not modelled.
  Comparisons, \<open>Math.floor\<close> and division by a power of two are exact on doubles,
  so the thresholds below are the code's.
\<close>

datatype num = Fin real | PInf | NInf | NaN


text \<open>The quotient \<open>a / b\<close> of two finite numbers, where the divisor may be zero.\<close>

definition jsdiv :: "real \<Rightarrow> real \<Rightarrow> num" where
  "jsdiv a b = (if b \<noteq> 0 then Fin (a / b)
                else if 0 < a then PInf else if a < 0 then NInf else NaN)"

text \<open>
  \<open>ToInt32\<close> of a finite number: truncate towards zero, then keep the low 32 bits.
\<close>

definition trunc :: "real \<Rightarrow> int" where
  "trunc r = (if 0 \<le> r then \<lfloor>r\<rfloor> else \<lceil>r\<rceil>)"

definition toInt32 :: "real \<Rightarrow> 32 word" where
  "toInt32 r = word_of_int (trunc r)"

section \<open>Hash\<close>

text \<open>
  \<open>Hash.intHash\<close>: \<open>h ^= (x & 0xFFFFFFFF)\<close> and \<open>Math.imul\<close> work on 32-bit
  integers, \<open>h >>> 0\<close> reads the result as unsigned.
\<close>

definition intHash :: "real \<Rightarrow> real \<Rightarrow> real" where
  "intHash x z =
     (let h0 = (0x811c9dc5 :: 32 word);
          h1 = h0 XOR (toInt32 x AND 0xFFFFFFFF);
          h2 = h1 * 0x01000193;
          h3 = h2 XOR (toInt32 z AND 0xFFFFFFFF);
          h4 = h3 * 0x01000193
      in real (unat h4) / 4294967296)"

text \<open>\<open>Hash.val\<close>: quantise to hundredths, then hash.\<close>

definition val :: "real \<Rightarrow> real \<Rightarrow> real" where
  "val x z = intHash (of_int \<lfloor>x * 100\<rfloor>) (of_int \<lfloor>z * 100\<rfloor>)"

section \<open>Noise\<close>

text \<open>
  \<open>Noise.perm\<close> is a \<open>Uint8Array(512)\<close>: a list of bytes. Every index the sampler
  reads is at most 511.
\<close>

type_synonym perm = "8 word list"

definition grad3 :: "(real \<times> real \<times> real) list" where
  "grad3 = [(1,1,0),(-1,1,0),(1,-1,0),(-1,-1,0),(1,0,1),(-1,0,1),
            (1,0,-1),(-1,0,-1),(0,1,1),(0,-1,1),(0,1,-1),(0,-1,-1)]"

definition dot :: "real \<times> real \<times> real \<Rightarrow> real \<Rightarrow> real \<Rightarrow> real" where
  "dot g x y = fst g * x + fst (snd g) * y"

text \<open>One corner's contribution: \<open>if (t < 0) n = 0 else { t *= t; n = t * t * dot(...) }\<close>.\<close>

definition corner :: "real \<Rightarrow> nat \<Rightarrow> real \<Rightarrow> real \<Rightarrow> real" where
  "corner t gi x y = (if t < 0 then 0 else (t * t) * (t * t) * dot (grad3 ! gi) x y)"

definition simplex :: "perm \<Rightarrow> real \<Rightarrow> real \<Rightarrow> real" where
  "simplex p x y =
     (let F2 = 0.5 * (sqrt 3 - 1);
          G2 = (3 - sqrt 3) / 6;
          s = (x + y) * F2;
          i = \<lfloor>x + s\<rfloor>; j = \<lfloor>y + s\<rfloor>;
          t = of_int (i + j) * G2;
          X0 = of_int i - t; Y0 = of_int j - t;
          x0 = x - X0; y0 = y - Y0;
          i1 = (if x0 > y0 then 1 else 0 :: nat);
          j1 = (if x0 > y0 then 0 else 1 :: nat);
          x1 = x0 - of_nat i1 + G2; y1 = y0 - of_nat j1 + G2;
          x2 = x0 - 1 + 2 * G2; y2 = y0 - 1 + 2 * G2;
          ii = unat (toInt32 (of_int i) AND 255);
          jj = unat (toInt32 (of_int j) AND 255);
          gi0 = unat (p ! (ii + unat (p ! jj))) mod 12;
          gi1 = unat (p ! (ii + i1 + unat (p ! (jj + j1)))) mod 12;
          gi2 = unat (p ! (ii + 1 + unat (p ! (jj + 1)))) mod 12;
          n0 = corner (0.5 - x0 * x0 - y0 * y0) gi0 x0 y0;
          n1 = corner (0.5 - x1 * x1 - y1 * y1) gi1 x1 y1;
          n2 = corner (0.5 - x2 * x2 - y2 * y2) gi2 x2 y2
      in 70 * (n0 + n1 + n2))"

text \<open>
  \<open>v || d\<close> on an argument that is a finite number or was left out (\<open>None\<close> is
  \<open>undefined\<close>): the default replaces a falsy value.
\<close>

definition js_or :: "real option \<Rightarrow> real \<Rightarrow> real" where
  "js_or v d = (case v of None \<Rightarrow> d | Some r \<Rightarrow> if r = 0 then d else r)"

text \<open>
  The loop of \<open>Ctx.octaved\<close>, from counter \<open>i\<close> on. The state is
  \<open>(total, amp, freq, max)\<close>; \<open>n\<close> is \<open>oct || 4\<close> and \<open>q\<close> is \<open>per || 0.5\<close>.
\<close>

function octaved_loop ::
  "perm \<Rightarrow> real \<Rightarrow> real \<Rightarrow> real \<Rightarrow> real \<Rightarrow> nat \<Rightarrow> real \<times> real \<times> real \<times> real
     \<Rightarrow> real \<times> real \<times> real \<times> real" where
  "octaved_loop p x z n q i (tot, amp, freq, mx) =
     (if real i < n
      then octaved_loop p x z n q (Suc i)
             (tot + simplex p (x * freq) (z * freq) * amp, amp * q, freq * 2, mx + amp)
      else (tot, amp, freq, mx))"
  by pat_completeness auto
termination
  by (relation "measure (\<lambda>(p, x, z, n, q, i, st). nat \<lceil>n\<rceil> - i)") (auto, linarith)

declare octaved_loop.simps [simp del]

definition octaved :: "perm \<Rightarrow> real \<Rightarrow> real \<Rightarrow> real option \<Rightarrow> real option \<Rightarrow> num" where
  "octaved p x z oct per =
     (case octaved_loop p x z (js_or oct 4) (js_or per 0.5) 0 (0, 1, 1, 0) of
        (tot, amp, freq, mx) \<Rightarrow> jsdiv tot mx)"

section \<open>Biomes\<close>

datatype biome = WATER | SAND | GRASS | STONE | SNOW | ALIEN | LAVA

text \<open>
  The biome determination of \<open>updateTerrain\<close>: the ladder on \<open>surfaceY = Math.floor(y)\<close>,
  then the two assignments on \<open>y\<close> itself, in the order of the source.
\<close>

definition ladder :: "int \<Rightarrow> biome" where
  "ladder surfaceY =
     (if surfaceY < -2 then WATER
      else if surfaceY < 2 then SAND
      else if surfaceY < 15 then GRASS
      else if surfaceY < 40 then STONE
      else SNOW)"

definition classify :: "real \<Rightarrow> biome" where
  "classify y =
     (let b0 = ladder \<lfloor>y\<rfloor>;
          b1 = (if y > 60 then ALIEN else b0);
          b2 = (if y < -30 then LAVA else b1)
      in b2)"

text \<open>
  The base ladder and the two overrides, as the specification words them: an override
  on the raw height wins over the ladder on the floored height.
\<close>

definition classify_spec :: "real \<Rightarrow> biome" where
  "classify_spec h =
     (if h < -30 then LAVA
      else if h > 60 then ALIEN
      else if \<lfloor>h\<rfloor> < -2 then WATER
      else if \<lfloor>h\<rfloor> < 2 then SAND
      else if \<lfloor>h\<rfloor> < 15 then GRASS
      else if \<lfloor>h\<rfloor> < 40 then STONE
      else SNOW)"

section \<open>Compiled height functions\<close>

text \<open>
  What a call can give back: a number, a value that is not a number and is kept apart as
  an object (a function object, or a string that does not read as a number), or
  \<open>undefined\<close>. \<open>Number.isFinite\<close> holds of finite numbers only.
\<close>

datatype jsval = Num num | Obj | Undef

datatype outcome = Threw string | Returned jsval

text \<open>
  The \<open>Ctx\<close> object as a compiled function sees it through \<open>with(C)\<close>: the two
  mutable coordinate fields \<open>_x\<close> and \<open>_z\<close>, and its named members, which are
  numeric constants or functions. A member function may read the coordinate fields.
\<close>

datatype member = MConst num | MFun "real \<Rightarrow> real \<Rightarrow> jsval list \<Rightarrow> jsval"

record ctx =
  cur_x :: real
  cur_z :: real
  members :: "string \<Rightarrow> member option"

text \<open>
  A compiled function is called as \<open>f(Ctx, x, z)\<close>. It throws or returns a value,
  and, the formula being run under \<open>with(C)\<close>, it may assign to members of the
  context: the call gives back the context as it leaves it, also when it throws.
\<close>

type_synonym wfun = "ctx \<Rightarrow> real \<Rightarrow> real \<Rightarrow> outcome \<times> ctx"

text \<open>
  A function that only reads the context is given by its outcome alone. The arithmetic
  fragment of the engine model below has no assignment and gives functions of this kind.
\<close>

type_synonym hfun = "ctx \<Rightarrow> real \<Rightarrow> real \<Rightarrow> outcome"

definition reading :: "hfun \<Rightarrow> wfun" where
  "reading f C x z = (f C x z, C)"


text \<open>The \<open>error-msg\<close> element: its text and whether the class \<open>error-hidden\<close> is set.\<close>

record errbox =
  textContent :: string
  error_hidden :: bool

text \<open>The warning sign and the space that precede the message, in UTF-8.\<close>

definition warn :: string where
  "warn = [CHR 0xE2, CHR 0x9A, CHR 0xA0, CHR 0x20]"

text \<open>\<open>str.replace(/\^/g, '**')\<close>.\<close>

definition replace_caret :: "string \<Rightarrow> string" where
  "replace_caret str = concat (map (\<lambda>c. if c = CHR 0x5E then ''**'' else [c]) str)"

definition body :: "string \<Rightarrow> string" where
  "body safeStr = ''with(C){return '' @ safeStr @ '';}''"

definition report :: "string \<Rightarrow> hfun option \<times> errbox" where
  "report msg = (None, \<lparr>textContent = warn @ msg, error_hidden = False\<rparr>)"

text \<open>
  \<open>compileFormula\<close>. The engine's \<open>new Function('C', 'x', 'z', body)\<close> is the
  parameter \<open>newFunction\<close>: it throws a message or gives the callable. The result
  is the function or \<open>null\<close>, and the error element as the call leaves it.
\<close>

definition compileFormula ::
  "(string \<Rightarrow> string + hfun) \<Rightarrow> ctx \<Rightarrow> errbox \<Rightarrow> string \<Rightarrow> hfun option \<times> errbox" where
  "compileFormula newFunction C err str =
     (let safeStr = replace_caret str in
      case newFunction (body safeStr) of
        Inl msg \<Rightarrow> report msg
      | Inr f \<Rightarrow>
          (case f C 0 0 of
             Threw msg \<Rightarrow> report msg
           | Returned v \<Rightarrow> (Some f, err \<lparr>error_hidden := True\<rparr>)))"

section \<open>Terrain window\<close>

datatype colour = water | sand | grass | dirt | stone | snow | alien | lava | neon

text \<open>
  One instance of the mesh: the position set by \<open>setMatrixAt\<close> and the colour set by
  \<open>setColorAt\<close>, a palette entry times a scalar.
\<close>

record inst =
  position :: "int \<times> int \<times> int"
  tint :: "colour \<times> real"

record state =
  compiledFunc :: "hfun option"
  lastUpdateX :: int
  lastUpdateZ :: int
  Ctx :: ctx
  instMesh :: "inst list"
  errorMsg :: errbox

text \<open>
  The height of a column, as \<open>script.js\<close> computes it:
  \<open>try { y = f(Ctx, wx, wz); if (!Number.isFinite(y)) y = 0; } catch(e) { y = 0; }\<close>.
\<close>

definition height :: "outcome \<Rightarrow> real" where
  "height r = (case r of
                 Threw e \<Rightarrow> 0
               | Returned v \<Rightarrow> (case v of Num (Fin y) \<Rightarrow> y | _ \<Rightarrow> 0))"

text \<open>
  The other source file catches first and tests afterwards:
  \<open>try { y = f(Ctx, wx, wz); } catch(e) { y = 0; } if (!Number.isFinite(y)) y = 0;\<close>.
\<close>

definition height_alt :: "outcome \<Rightarrow> real" where
  "height_alt r =
     (let y = (case r of Threw e \<Rightarrow> Num (Fin 0) | Returned v \<Rightarrow> v)
      in case y of Num (Fin y') \<Rightarrow> y' | _ \<Rightarrow> 0)"

definition surface_colour :: "biome \<Rightarrow> colour" where
  "surface_colour b = (case b of WATER \<Rightarrow> water | SAND \<Rightarrow> sand | GRASS \<Rightarrow> grass
     | STONE \<Rightarrow> stone | SNOW \<Rightarrow> snow | ALIEN \<Rightarrow> alien | LAVA \<Rightarrow> lava)"

text \<open>The colour of layer \<open>d\<close>: copied from the palette, then darkened below the top.\<close>

definition layer_colour :: "biome \<Rightarrow> nat \<Rightarrow> colour \<times> real" where
  "layer_colour b d =
     (let c = (if d = 0 then surface_colour b else if b = GRASS then dirt else stone)
      in if d > 0 then (c, 0.85) else (c, 1))"

text \<open>
  One pass of the innermost loop: write instance \<open>idx\<close>, then \<open>idx++\<close>. A write
  past the end of the instance buffers is dropped, as a typed array drops it.
\<close>

definition layer_step ::
  "int \<Rightarrow> int \<Rightarrow> int \<Rightarrow> biome \<Rightarrow> nat \<Rightarrow> nat \<times> inst list \<Rightarrow> nat \<times> inst list" where
  "layer_step wx surfaceY wz b d st =
     (case st of (idx, mesh) \<Rightarrow>
        (Suc idx,
         mesh [idx := \<lparr>position = (wx, surfaceY - int d, wz), tint = layer_colour b d\<rparr>]))"

text \<open>
  The body of the two column loops, for indices \<open>i\<close> and \<open>j\<close>. The loop state is the
  context, the running index and the mesh. The context goes on to the next column as
  the call leaves it; nothing is undone when the call throws.
\<close>

definition column_step_w ::
  "nat \<Rightarrow> wfun \<Rightarrow> int \<Rightarrow> int \<Rightarrow> int \<Rightarrow> nat \<Rightarrow> nat \<Rightarrow> ctx \<times> nat \<times> inst list
     \<Rightarrow> ctx \<times> nat \<times> inst list" where
  "column_step_w LAYERS f cx cz offset i j st =
     (case st of (C, idx, mesh) \<Rightarrow>
        (let wx = cx - offset + int i;
             wz = cz - offset + int j;
             C' = C \<lparr>cur_x := of_int wx, cur_z := of_int wz\<rparr>;
             (r, C'') = f C' (of_int wx) (of_int wz);
             y = height r;
             surfaceY = \<lfloor>y\<rfloor>;
             b = classify y;
             (idx', mesh') = fold (layer_step wx surfaceY wz b) [0..<LAYERS] (idx, mesh)
         in (C'', idx', mesh')))"

definition column_loops_w ::
  "nat \<Rightarrow> nat \<Rightarrow> wfun \<Rightarrow> int \<Rightarrow> int \<Rightarrow> ctx \<times> nat \<times> inst list \<Rightarrow> ctx \<times> nat \<times> inst list" where
  "column_loops_w GRID LAYERS f cx cz st =
     (let offset = int (GRID div 2)
      in fold (\<lambda>i. fold (column_step_w LAYERS f cx cz offset i) [0..<GRID]) [0..<GRID] st)"

text \<open>
  The same loop body for a function that only reads the context: the context changes
  in its two coordinate fields alone.
\<close>

definition column_step ::
  "nat \<Rightarrow> hfun \<Rightarrow> int \<Rightarrow> int \<Rightarrow> int \<Rightarrow> nat \<Rightarrow> nat \<Rightarrow> ctx \<times> nat \<times> inst list
     \<Rightarrow> ctx \<times> nat \<times> inst list" where
  "column_step LAYERS f cx cz offset i j st =
     (case st of (C, idx, mesh) \<Rightarrow>
        (let wx = cx - offset + int i;
             wz = cz - offset + int j;
             C' = C \<lparr>cur_x := of_int wx, cur_z := of_int wz\<rparr>;
             y = height (f C' (of_int wx) (of_int wz));
             surfaceY = \<lfloor>y\<rfloor>;
             b = classify y;
             (idx', mesh') = fold (layer_step wx surfaceY wz b) [0..<LAYERS] (idx, mesh)
         in (C', idx', mesh')))"

text \<open>
  The two column loops of \<open>updateTerrain\<close>, outer index \<open>i\<close> and inner index
  \<open>j\<close>, from a loop state on. The running index \<open>idx\<close> counts the writes.
\<close>

definition column_loops ::
  "nat \<Rightarrow> nat \<Rightarrow> hfun \<Rightarrow> int \<Rightarrow> int \<Rightarrow> ctx \<times> nat \<times> inst list \<Rightarrow> ctx \<times> nat \<times> inst list" where
  "column_loops GRID LAYERS f cx cz st =
     (let offset = int (GRID div 2)
      in fold (\<lambda>i. fold (column_step LAYERS f cx cz offset i) [0..<GRID]) [0..<GRID] st)"

text \<open>
  \<open>updateTerrain(force)\<close>, for a grid of \<open>GRID\<close> by \<open>GRID\<close> columns of
  \<open>LAYERS\<close> layers (160 or 200, and 4, in the two source files). The reference point
  is the camera position or the orbit target, as the caller has it. The light that
  follows the centre belongs to the scene and is left out.
\<close>

definition updateTerrain :: "nat \<Rightarrow> nat \<Rightarrow> real \<times> real \<Rightarrow> bool \<Rightarrow> state \<Rightarrow> state" where
  "updateTerrain GRID LAYERS ref force s =
     (case compiledFunc s of
        None \<Rightarrow> s
      | Some f \<Rightarrow>
          (let cx = \<lfloor>fst ref\<rfloor>; cz = \<lfloor>snd ref\<rfloor> in
           if \<not> force \<and> \<bar>cx - lastUpdateX s\<bar> < 2 \<and> \<bar>cz - lastUpdateZ s\<bar> < 2 then s
           else
             (let s1 = s \<lparr>lastUpdateX := cx, lastUpdateZ := cz\<rparr>;
                  (C', idx, mesh') = column_loops GRID LAYERS f cx cz (Ctx s1, 0, instMesh s1)
              in s1 \<lparr>Ctx := C', instMesh := mesh'\<rparr>)))"


text \<open>The \<open>input\<close> listener of the formula field: compile, assign, refresh.\<close>

definition on_input ::
  "(string \<Rightarrow> string + hfun) \<Rightarrow> nat \<Rightarrow> nat \<Rightarrow> real \<times> real \<Rightarrow> string \<Rightarrow> state \<Rightarrow> state" where
  "on_input newFunction GRID LAYERS ref txt s =
     (case compileFormula newFunction (Ctx s) (errorMsg s) txt of
        (f, err) \<Rightarrow> updateTerrain GRID LAYERS ref True (s \<lparr>compiledFunc := f, errorMsg := err\<rparr>))"

text \<open>
  The descriptor the refresh writes for layer \<open>d\<close> of the column with loop indices
  \<open>i\<close> and \<open>j\<close>, in closed form.
\<close>

definition descriptor :: "nat \<Rightarrow> hfun \<Rightarrow> ctx \<Rightarrow> int \<Rightarrow> int \<Rightarrow> nat \<Rightarrow> nat \<Rightarrow> nat \<Rightarrow> inst" where
  "descriptor GRID f C cx cz i j d =
     (let wx = cx - int (GRID div 2) + int i;
          wz = cz - int (GRID div 2) + int j;
          y = height (f (C \<lparr>cur_x := of_int wx, cur_z := of_int wz\<rparr>) (of_int wx) (of_int wz))
      in \<lparr>position = (wx, \<lfloor>y\<rfloor> - int d, wz), tint = layer_colour (classify y) d\<rparr>)"

text \<open>All descriptors of a window, columns in row-major order, layers from the top down.\<close>

definition window :: "nat \<Rightarrow> nat \<Rightarrow> hfun \<Rightarrow> ctx \<Rightarrow> int \<Rightarrow> int \<Rightarrow> inst list" where
  "window GRID LAYERS f C cx cz =
     concat (map (\<lambda>i. concat (map (\<lambda>j. map (descriptor GRID f C cx cz i j) [0..<LAYERS])
                                   [0..<GRID])) [0..<GRID])"



section \<open>Expression engine\<close>

text \<open>
  The engine behind \<open>new Function\<close> is not part of the repository. For closed
  examples it is modelled on a fragment of the expression language: decimal literals,
  identifiers, the operators \<open>+\<close>, \<open>-\<close> and \<open>*\<close>, parentheses and calls
  of a named function. A text outside the fragment is rejected by the model, which says
  nothing about the engine there; the wording of the messages is the model's. An
  identifier is looked up in the context first, then among the parameters \<open>x\<close> and
  \<open>z\<close>; properties of the global object are not modelled.
\<close>

datatype binop = Add | Sub | Mul

datatype tok = TNum real | TId string | TOp binop | TLP | TRP | TComma | TLB | TRB | TSemi

datatype expr = Lit real | Var string | Bin binop expr expr | Call string "expr list"

subsection \<open>Lexer\<close>

text \<open>
  One character at a time: a pending literal or identifier grows until a delimiter
  flushes it. An integer part with a leading zero is left to the engine.
\<close>

definition digit :: "char \<Rightarrow> bool" where
  "digit c = (c \<in> set ''0123456789'')"

definition letter :: "char \<Rightarrow> bool" where
  "letter c = (c \<in> set ''abcdefghijklmnopqrstuvwxyzABCDEFGHIJKLMNOPQRSTUVWXYZ_$'')"

definition digit_val :: "char \<Rightarrow> nat" where
  "digit_val c = of_char c - 48"

definition decimal :: "string \<Rightarrow> nat" where
  "decimal ds = foldl (\<lambda>n c. 10 * n + digit_val c) 0 ds"

datatype pending = Idle | PInt string | PFrac string string | PId string

definition literal :: "string \<Rightarrow> string \<Rightarrow> tok list option" where
  "literal ds fs =
     (if ds = ''0'' \<or> take 1 ds \<noteq> ''0''
      then Some [TNum (real (decimal ds) + real (decimal fs) / 10 ^ length fs)]
      else None)"

fun flush :: "pending \<Rightarrow> tok list option" where
  "flush Idle = Some []"
| "flush (PInt ds) = literal ds []"
| "flush (PFrac ds fs) = literal ds fs"
| "flush (PId s) = Some [TId s]"

definition punct :: "char \<Rightarrow> tok list option" where
  "punct c =
     (if c = CHR '' '' then Some []
      else if c = CHR ''+'' then Some [TOp Add]
      else if c = CHR ''-'' then Some [TOp Sub]
      else if c = CHR ''*'' then Some [TOp Mul]
      else if c = CHR ''('' then Some [TLP]
      else if c = CHR '')'' then Some [TRP]
      else if c = CHR '','' then Some [TComma]
      else if c = CHR ''{'' then Some [TLB]
      else if c = CHR ''}'' then Some [TRB]
      else if c = CHR '';'' then Some [TSemi]
      else None)"

type_synonym lstate = "pending \<times> tok list"

fun lstep :: "char \<Rightarrow> lstate \<Rightarrow> lstate option" where
  "lstep c (p, out) =
     (if digit c then
        (case p of
           Idle \<Rightarrow> Some (PInt [c], out)
         | PInt ds \<Rightarrow> Some (PInt (ds @ [c]), out)
         | PFrac ds fs \<Rightarrow> Some (PFrac ds (fs @ [c]), out)
         | PId s \<Rightarrow> Some (PId (s @ [c]), out))
      else if letter c then
        (case p of
           Idle \<Rightarrow> Some (PId [c], out)
         | PId s \<Rightarrow> Some (PId (s @ [c]), out)
         | _ \<Rightarrow> None)
      else if c = CHR ''.'' then
        (case p of PInt ds \<Rightarrow> Some (PFrac ds [], out) | _ \<Rightarrow> None)
      else
        (case flush p of
           None \<Rightarrow> None
         | Some ts \<Rightarrow>
             (case punct c of
                None \<Rightarrow> None
              | Some ps \<Rightarrow> Some (Idle, rev ps @ rev ts @ out))))"


fun lexrun :: "string \<Rightarrow> lstate \<Rightarrow> lstate option" where
  "lexrun [] st = Some st"
| "lexrun (c # cs) st = (case lstep c st of None \<Rightarrow> None | Some st' \<Rightarrow> lexrun cs st')"

definition lex :: "string \<Rightarrow> tok list option" where
  "lex s =
     (case lexrun s (Idle, []) of
        None \<Rightarrow> None
      | Some (p, out) \<Rightarrow> (case flush p of None \<Rightarrow> None | Some ts \<Rightarrow> Some (rev out @ ts)))"

subsection \<open>Parser\<close>

text \<open>
  One token at a time. Each parenthesis level collects its operands and operators in
  \<open>sq\<close>, latest first; \<open>build\<close> folds them with \<open>*\<close> binding tighter than
  \<open>+\<close> and \<open>-\<close>, all to the left.
\<close>

fun close_sum :: "(expr \<times> binop) option \<Rightarrow> expr \<Rightarrow> expr" where
  "close_sum None t = t"
| "close_sum (Some (s, o')) t = Bin o' s t"

fun climb :: "(expr \<times> binop) option \<Rightarrow> expr \<Rightarrow> (binop \<times> expr) list \<Rightarrow> expr" where
  "climb acc t [] = close_sum acc t"
| "climb acc t ((Mul, e) # r) = climb acc (Bin Mul t e) r"
| "climb acc t ((o', e) # r) = climb (Some (close_sum acc t, o')) e r"

definition build :: "(expr \<times> binop) list \<Rightarrow> expr \<Rightarrow> expr" where
  "build sq e =
     (case rev sq of
        [] \<Rightarrow> e
      | (e1, o1) # r \<Rightarrow> climb None e1 (zip (o1 # map snd r) (map fst r @ [e])))"

datatype frame = Group "(expr \<times> binop) list" | CallF string "expr list" "(expr \<times> binop) list"

datatype mode = Want | Have expr

type_synonym pstate = "mode \<times> (expr \<times> binop) list \<times> frame list"

definition reserved :: "string list" where
  "reserved = [''break'', ''case'', ''catch'', ''class'', ''const'', ''continue'', ''debugger'',
     ''default'', ''delete'', ''do'', ''else'', ''enum'', ''export'', ''extends'', ''false'',
     ''finally'', ''for'', ''function'', ''if'', ''import'', ''in'', ''instanceof'', ''new'',
     ''null'', ''return'', ''super'', ''switch'', ''this'', ''throw'', ''true'', ''try'',
     ''typeof'', ''var'', ''void'', ''while'', ''with'', ''let'', ''static'', ''yield'',
     ''await'', ''async'', ''of'', ''implements'', ''interface'', ''package'', ''private'',
     ''protected'', ''public'', ''arguments'', ''eval'', ''C'']"

fun pstep :: "tok \<Rightarrow> pstate \<Rightarrow> pstate option" where
  "pstep (TNum v) (Want, sq, stk) = Some (Have (Lit v), sq, stk)"
| "pstep (TId s) (Want, sq, stk) =
     (if s \<in> set reserved then None else Some (Have (Var s), sq, stk))"
| "pstep TLP (Want, sq, stk) = Some (Want, [], Group sq # stk)"
| "pstep TRP (Want, [], CallF f args osq # stk) = Some (Have (Call f args), osq, stk)"
| "pstep (TOp o') (Have e, sq, stk) = Some (Want, (e, o') # sq, stk)"
| "pstep TLP (Have (Var s), sq, stk) = Some (Want, [], CallF s [] sq # stk)"
| "pstep TComma (Have e, sq, CallF f args osq # stk) =
     Some (Want, [], CallF f (args @ [build sq e]) osq # stk)"
| "pstep TRP (Have e, sq, Group osq # stk) = Some (Have (build sq e), osq, stk)"
| "pstep TRP (Have e, sq, CallF f args osq # stk) =
     Some (Have (Call f (args @ [build sq e])), osq, stk)"
| "pstep t st = None"

fun prun :: "tok list \<Rightarrow> pstate \<Rightarrow> pstate option" where
  "prun [] st = Some st"
| "prun (t # ts) st = (case pstep t st of None \<Rightarrow> None | Some st' \<Rightarrow> prun ts st')"

definition parse :: "tok list \<Rightarrow> expr option" where
  "parse ts =
     (case prun ts (Want, [], []) of
        Some (Have e, sq, []) \<Rightarrow> Some (build sq e)
      | _ \<Rightarrow> None)"


subsection \<open>Evaluation\<close>

text \<open>
  Arithmetic on the four kinds of number, \<open>ToNumber\<close>, and \<open>+\<close> as concatenation
  when an operand is an object. A call looks the callee up before its arguments are
  evaluated and tests that it is a function after.
\<close>

fun neg :: "num \<Rightarrow> num" where
  "neg (Fin r) = Fin (- r)"
| "neg PInf = NInf"
| "neg NInf = PInf"
| "neg NaN = NaN"

fun add :: "num \<Rightarrow> num \<Rightarrow> num" where
  "add (Fin a) (Fin b) = Fin (a + b)"
| "add NaN b = NaN"
| "add a NaN = NaN"
| "add PInf NInf = NaN"
| "add NInf PInf = NaN"
| "add PInf b = PInf"
| "add NInf b = NInf"
| "add a b = b"

fun scale :: "num \<Rightarrow> real \<Rightarrow> num" where
  "scale a r = (if r = 0 then NaN else if 0 < r then a else neg a)"

fun mul :: "num \<Rightarrow> num \<Rightarrow> num" where
  "mul (Fin a) (Fin b) = Fin (a * b)"
| "mul NaN b = NaN"
| "mul a NaN = NaN"
| "mul a (Fin r) = scale a r"
| "mul (Fin r) b = scale b r"
| "mul a PInf = a"
| "mul a NInf = neg a"

definition to_num :: "jsval \<Rightarrow> num" where
  "to_num v = (case v of Num n \<Rightarrow> n | Obj \<Rightarrow> NaN | Undef \<Rightarrow> NaN)"

definition binop_val :: "binop \<Rightarrow> jsval \<Rightarrow> jsval \<Rightarrow> jsval" where
  "binop_val o' a b =
     (case o' of
        Add \<Rightarrow> (if a = Obj \<or> b = Obj then Obj else Num (add (to_num a) (to_num b)))
      | Sub \<Rightarrow> Num (add (to_num a) (neg (to_num b)))
      | Mul \<Rightarrow> Num (mul (to_num a) (to_num b)))"

definition lookup :: "ctx \<Rightarrow> real \<Rightarrow> real \<Rightarrow> string \<Rightarrow> member option" where
  "lookup C x z s =
     (if s = ''_x'' then Some (MConst (Fin (cur_x C)))
      else if s = ''_z'' then Some (MConst (Fin (cur_z C)))
      else case members C s of
             Some m \<Rightarrow> Some m
           | None \<Rightarrow> if s = ''x'' then Some (MConst (Fin x))
                     else if s = ''z'' then Some (MConst (Fin z))
                     else None)"

fun collect :: "(string + jsval) list \<Rightarrow> string + jsval list" where
  "collect [] = Inr []"
| "collect (Inl m # rs) = Inl m"
| "collect (Inr v # rs) = (case collect rs of Inl m \<Rightarrow> Inl m | Inr vs \<Rightarrow> Inr (v # vs))"

fun eval :: "ctx \<Rightarrow> real \<Rightarrow> real \<Rightarrow> expr \<Rightarrow> string + jsval" where
  "eval C x z (Lit r) = Inr (Num (Fin r))"
| "eval C x z (Var s) =
     (case lookup C x z s of
        None \<Rightarrow> Inl (s @ '' is not defined'')
      | Some (MConst n) \<Rightarrow> Inr (Num n)
      | Some (MFun g) \<Rightarrow> Inr Obj)"
| "eval C x z (Bin o' a b) =
     (case eval C x z a of
        Inl m \<Rightarrow> Inl m
      | Inr va \<Rightarrow> (case eval C x z b of Inl m \<Rightarrow> Inl m | Inr vb \<Rightarrow> Inr (binop_val o' va vb)))"
| "eval C x z (Call f args) =
     (case lookup C x z f of
        None \<Rightarrow> Inl (f @ '' is not defined'')
      | Some m \<Rightarrow>
          (case collect (map (eval C x z) args) of
             Inl e \<Rightarrow> Inl e
           | Inr vs \<Rightarrow>
               (case m of
                  MFun g \<Rightarrow> Inr (g (cur_x C) (cur_z C) vs)
                | MConst n \<Rightarrow> Inl (f @ '' is not a function''))))"

text \<open>The tokens between \<open>with(C){return\<close> and \<open>;}\<close>.\<close>

definition unwrap :: "tok list \<Rightarrow> tok list option" where
  "unwrap ts =
     (let n = length ts in
      if 8 \<le> n \<and> take 6 ts = [TId ''with'', TLP, TId ''C'', TRP, TLB, TId ''return'']
         \<and> drop (n - 2) ts = [TSemi, TRB]
      then Some (take (n - 8) (drop 6 ts)) else None)"

definition run :: "expr \<Rightarrow> hfun" where
  "run e C x z = (case eval C x z e of Inl m \<Rightarrow> Threw m | Inr v \<Rightarrow> Returned v)"

text \<open>An empty formula gives \<open>return ;\<close>, a function that returns \<open>undefined\<close>.\<close>

definition js_engine :: "string \<Rightarrow> string + hfun" where
  "js_engine src =
     (case lex src of
        None \<Rightarrow> Inl ''Invalid or unexpected token''
      | Some ts \<Rightarrow>
          (case unwrap ts of
             None \<Rightarrow> Inl ''Unexpected token''
           | Some mid \<Rightarrow>
               if mid = [] then Inr (\<lambda>C x z. Returned Undef)
               else (case parse mid of
                       None \<Rightarrow> Inl ''Unexpected token''
                     | Some e \<Rightarrow> Inr (run e))))"

section \<open>Formula generator\<close>

text \<open>
  \<open>Math.random()\<close> is a stream of numbers: each call takes the head. \<open>toFixed\<close>
  is modelled below \<open>10^21\<close>, where the result is in decimal notation.
\<close>

definition digit_char :: "nat \<Rightarrow> char" where
  "digit_char k = ''0123456789'' ! k"

fun digits :: "nat \<Rightarrow> string" where
  "digits n = (if n < 10 then [digit_char n] else digits (n div 10) @ [digit_char (n mod 10)])"

declare digits.simps [simp del]

definition toFixed :: "nat \<Rightarrow> real \<Rightarrow> string" where
  "toFixed f x =
     (let a = \<bar>x\<bar>;
          n = nat \<lfloor>a * 10 ^ f + 1 / 2\<rfloor>;
          m = digits n;
          m' = replicate (Suc f - length m) (CHR ''0'') @ m;
          k = length m' - f;
          s = (if f = 0 then m else take k m' @ ''.'' @ drop k m')
      in if x < 0 then ''-'' @ s else s)"

definition pick :: "string list \<Rightarrow> real \<Rightarrow> string" where
  "pick arr r =
     (let k = \<lfloor>r * real (length arr)\<rfloor>
      in if 0 \<le> k \<and> k < int (length arr) then arr ! nat k else ''undefined'')"

definition ops :: "string list" where "ops = [''+'', ''-'', ''*'']"
definition funcs :: "string list" where "funcs = [''sin'', ''cos'', ''abs'', ''floor'']"
definition noise :: "string list" where "noise = [''simplex'', ''octaved'']"

text \<open>\<open>Generator.genExpr(depth)\<close> of \<open>script.js\<close>.\<close>

function genExpr :: "int \<Rightarrow> real stream \<Rightarrow> string \<times> real stream" where
  "genExpr depth rnd =
     (if depth \<le> 0 then
        (let r = shd rnd; rnd1 = stl rnd in
         if r < 0.6
         then ((if shd rnd1 < 0.5 then ''x'' else ''z'') @ ''*''
                 @ toFixed 3 (shd (stl rnd1) * 0.15), stl (stl rnd1))
         else (toFixed 1 (shd rnd1 * 10), stl rnd1))
      else
        (let ty = shd rnd; rnd1 = stl rnd in
         if ty < 0.3 then
           (case genExpr (depth - 1) rnd1 of (a, rnd2) \<Rightarrow>
              (case genExpr (depth - 1) (stl rnd2) of (b, rnd3) \<Rightarrow>
                 (''('' @ a @ '' '' @ pick ops (shd rnd2) @ '' '' @ b @ '')'', rnd3)))
         else if ty < 0.6 then
           (case genExpr (depth - 1) (stl rnd1) of (a, rnd2) \<Rightarrow>
              (pick funcs (shd rnd1) @ ''('' @ a @ '')'', rnd2))
         else (pick noise (shd rnd1) @ ''(x*0.05, 0, z*0.05) * 10'', stl rnd1)))"
  by pat_completeness auto
termination
  by (relation "measure (\<lambda>(depth, rnd). nat depth)") auto

declare genExpr.simps [simp del]

text \<open>
  \<open>Generator.genExpr(depth, noiseKey)\<close> of the other source file, with its own
  function list. \<open>toLowerCase\<close> is modelled on ASCII.
\<close>

definition funcs2 :: "string list" where
  "funcs2 = [''sin'', ''cos'', ''abs'', ''floor'', ''round'', ''sqrt'']"

definition noiseTypes :: "string list" where
  "noiseTypes = [''Perlin'', ''Simplex'', ''Normal'', ''Blended'']"

definition toLowerCase :: "string \<Rightarrow> string" where
  "toLowerCase s =
     map (\<lambda>c. case map_of (zip ''ABCDEFGHIJKLMNOPQRSTUVWXYZ'' ''abcdefghijklmnopqrstuvwxyz'') c of
                 Some l \<Rightarrow> l | None \<Rightarrow> c) s"

function genExpr2 :: "int \<Rightarrow> string \<Rightarrow> real stream \<Rightarrow> string \<times> real stream" where
  "genExpr2 depth noiseKey rnd =
     (if depth \<le> 0 then
        (let r = shd rnd; rnd1 = stl rnd in
         if r < 0.6
         then ((if shd rnd1 < 0.5 then ''x'' else ''z'') @ ''*''
                 @ toFixed 3 (shd (stl rnd1) * 0.15 + 0.01), stl (stl rnd1))
         else (toFixed 1 (shd rnd1 * 15), stl rnd1))
      else
        (let ty = shd rnd; rnd1 = stl rnd in
         if ty < 0.3 then
           (case genExpr2 (depth - 1) noiseKey rnd1 of (a, rnd2) \<Rightarrow>
              (case genExpr2 (depth - 1) noiseKey (stl rnd2) of (b, rnd3) \<Rightarrow>
                 (''('' @ a @ '' '' @ pick ops (shd rnd2) @ '' '' @ b @ '')'', rnd3)))
         else if ty < 0.6 then
           (case genExpr2 (depth - 1) noiseKey (stl rnd1) of (a, rnd2) \<Rightarrow>
              (pick funcs2 (shd rnd1) @ ''('' @ a @ '')'', rnd2))
         else
           (toLowerCase noiseKey
              @ ''(x*'' @ toFixed 3 (shd rnd1 * 0.1)
              @ '', 0, z*'' @ toFixed 3 (shd (stl rnd1) * 0.1)
              @ '') * '' @ toFixed 0 (shd (stl (stl rnd1)) * 20 + 5),
            stl (stl (stl rnd1)))))"
  by pat_completeness auto
termination
  by (relation "measure (\<lambda>(depth, noiseKey, rnd). nat depth)") auto

declare genExpr2.simps [simp del]

text \<open>A stream that alternates between two numbers, for closed examples.\<close>

primcorec alternate :: "real \<Rightarrow> real \<Rightarrow> real stream" where
  "alternate a b = a ## alternate b a"

section \<open>Generated text and the engine\<close>

text \<open>
  The predicates of the proof that generated text is accepted. A text lexes to a token
  list whatever was lexed before it, with its last token still pending or not; a token
  list is a run of operands and operators that the parser consumes from any state that
  wants an operand, ending with an operand in the same parenthesis level.
\<close>

definition lexes :: "string \<Rightarrow> tok list \<Rightarrow> bool" where
  "lexes s ts = (\<forall>out. \<exists>p out' fl. lexrun s (Idle, out) = Some (p, out')
                    \<and> flush p = Some fl \<and> rev fl @ out' = rev ts @ out)"

definition lexes_done :: "string \<Rightarrow> tok list \<Rightarrow> bool" where
  "lexes_done s ts = (\<forall>out. lexrun s (Idle, out) = Some (Idle, rev ts @ out))"

definition operands :: "tok list \<Rightarrow> bool" where
  "operands ts = (\<forall>sq stk. \<exists>e sq'. prun ts (Want, sq, stk) = Some (Have e, sq', stk))"

definition well_formed :: "string \<Rightarrow> bool" where
  "well_formed g = (\<exists>ts. lexes g ts \<and> operands ts)"

text \<open>What \<open>Math.random()\<close> returns: numbers from 0 up to but not including 1.\<close>

definition unit_stream :: "real stream \<Rightarrow> bool" where
  "unit_stream rnd = (\<forall>r \<in> sset rnd. 0 \<le> r \<and> r < 1)"

section \<open>Examples\<close>

text \<open>A context holding four of the members of \<open>Ctx\<close>, for closed examples.\<close>

definition arg :: "jsval list \<Rightarrow> nat \<Rightarrow> jsval" where
  "arg vs k = (if k < length vs then vs ! k else Undef)"

text \<open>
  \<open>(x, y, z) => Noise.simplex(x, z)\<close>: an argument that is missing or not a finite
  number turns every intermediate value of the sampler into \<open>NaN\<close>.
\<close>

definition simplex_member :: "perm \<Rightarrow> jsval list \<Rightarrow> jsval" where
  "simplex_member p vs =
     (case arg vs 0 of
        Num (Fin a) \<Rightarrow> (case arg vs 2 of Num (Fin b) \<Rightarrow> Num (Fin (simplex p a b)) | _ \<Rightarrow> Num NaN)
      | _ \<Rightarrow> Num NaN)"

definition sample_ctx :: "perm \<Rightarrow> ctx" where
  "sample_ctx p =
     \<lparr>cur_x = 0, cur_z = 0,
      members = (\<lambda>s.
        if s = ''phi'' then Some (MConst (Fin 1.61803))
        else if s = ''rand'' then Some (MFun (\<lambda>cx cz vs. Num (Fin (intHash cx cz))))
        else if s = ''simplex'' \<or> s = ''perlin'' then Some (MFun (\<lambda>cx cz. simplex_member p))
        else None)\<rparr>"

text \<open>A state of a window of two by two columns of two layers, and two height functions.\<close>

definition blank :: inst where
  "blank = \<lparr>position = (0, 0, 0), tint = (snow, 1)\<rparr>"

definition sum_formula :: hfun where
  "sum_formula C x z = Returned (Num (Fin (x + z)))"





definition zero_perm :: perm where
  "zero_perm = replicate 512 0"

definition demo_state :: state where
  "demo_state =
     \<lparr>compiledFunc = Some sum_formula, lastUpdateX = 0, lastUpdateZ = 0,
      Ctx = sample_ctx zero_perm, instMesh = replicate 8 blank,
      errorMsg = \<lparr>textContent = [], error_hidden = True\<rparr>\<rparr>"

section \<open>Properties\<close>

lemma unat_32_less: "real (unat (w :: 32 word)) < 4294967296"
proof -
  have "unat w < 2 ^ 32" using unsigned_less [of w] by simp
  then have "real (unat w) < real (2 ^ 32)" by (rule less_imp_of_nat_less)
  then show ?thesis by simp
qed

lemma unat_32_nonneg: "0 \<le> real (unat (w :: 32 word))"
  using of_nat_0_le_iff [of "unat w", where 'a = real] by (simp del: of_nat_0_le_iff)

lemma mask_32: "w AND 0xFFFFFFFF = (w :: 32 word)"
proof -
  have "(0xFFFFFFFF :: 32 word) = - 1" by simp
  then show ?thesis by (simp only: word_bw_comms word_and_max)
qed

text \<open>
  C5. \<open>Hash.intHash\<close> is a function of its two arguments alone (it reads and writes no
  state), its value is the final 32-bit mix read as unsigned and divided by \<open>2^32\<close>,
  and it lies in the half-open interval from 0 to 1, for all arguments and so for every
  pair of 32-bit signed integers.
\<close>

theorem intHash_range:
  "intHash x z =
     real (unat (((0x811c9dc5 XOR toInt32 x) * 0x01000193 XOR toInt32 z) * (0x01000193 :: 32 word)))
       / 2 ^ 32
   \<and> 0 \<le> intHash x z \<and> intHash x z < 1"
proof -
  define h where "h = ((0x811c9dc5 XOR toInt32 x) * 0x01000193 XOR toInt32 z) * (0x01000193 :: 32 word)"
  have eq: "intHash x z = real (unat h) / 4294967296"
    by (simp only: intHash_def Let_def mask_32 h_def)
  have "0 \<le> real (unat h) / 4294967296"
    using unat_32_nonneg [of h] by (simp only: divide_nonneg_pos zero_less_numeral)
  moreover have "real (unat h) / 4294967296 < 1"
    using unat_32_less [of h] by (simp only: divide_less_eq_1_pos zero_less_numeral)
  moreover have "(2::real) ^ 32 = 4294967296" by simp
  ultimately show ?thesis unfolding eq h_def by (simp only: simp_thms)
qed

text \<open>
  C1. For every real height the biome determination is the base ladder on the floored
  height (WATER below -2, SAND below 2, GRASS below 15, STONE below 40, SNOW from 40 on),
  overwritten by ALIEN when the raw height exceeds 60 and by LAVA when it is below -30;
  the seven sample heights of the specification classify as it says.
\<close>

theorem classify_ladder_overrides:
  "classify h = classify_spec h
   \<and> classify (-3) = WATER \<and> classify 0 = SAND \<and> classify 10 = GRASS
   \<and> classify 20 = STONE \<and> classify 50 = SNOW \<and> classify 65 = ALIEN
   \<and> classify (-35) = LAVA"
  by (simp add: classify_def classify_spec_def ladder_def Let_def)

lemma octaved_loop_single:
  "octaved_loop p x z 1 q 0 (0, 1, 1, 0) = (simplex p x z, q, 2, 1)"
proof -
  have "octaved_loop p x z 1 q 0 (0, 1, 1, 0)
          = octaved_loop p x z 1 q (Suc 0) (simplex p x z, q, 2, 1)"
    by (subst octaved_loop.simps) simp
  also have "\<dots> = (simplex p x z, q, 2, 1)"
    by (subst octaved_loop.simps) simp
  finally show ?thesis .
qed

text \<open>
  C7. With a single octave the fractal combinator is the base field: for all coordinates
  and every persistence argument, given or left out, \<open>octaved(x, z, 1, per)\<close> is
  \<open>Noise.simplex(x, z)\<close>.
\<close>

theorem octaved_single_octave:
  "octaved p x z (Some 1) per = Fin (simplex p x z)"
  by (simp add: octaved_def js_or_def octaved_loop_single jsdiv_def)

text \<open>
  C10. The octave combinator replaces falsy arguments by its defaults: persistence 0
  behaves as persistence 0.5 for every octave argument, and octave count 0 behaves as
  octave count 4 for every persistence argument.
\<close>

theorem octaved_falsy_defaults:
  "octaved p x z oct (Some 0) = octaved p x z oct (Some 0.5)
   \<and> octaved p x z (Some 0) per = octaved p x z (Some 4) per"
  by (simp add: octaved_def js_or_def)

subsection \<open>The refresh loops\<close>

lemma height_alt_eq: "height_alt r = height r"
  by (simp add: height_alt_def height_def split: outcome.split jsval.split num.split)

lemma ctx_fields: "members C = members (C0 :: ctx) \<Longrightarrow>
   C \<lparr>cur_x := a, cur_z := b\<rparr> = C0 \<lparr>cur_x := a, cur_z := b\<rparr>"
  by (cases C, cases C0) simp

lemma write_run:
  "idx + n \<le> length mesh \<Longrightarrow>
   fold (\<lambda>d st. case st of (k, m) \<Rightarrow> (Suc k, m [k := g d])) [0..<n] (idx, mesh)
     = (idx + n, take idx mesh @ map g [0..<n] @ drop (idx + n) mesh)"
proof (induction n)
  case 0
  then show ?case by simp
next
  case (Suc n)
  then have le: "idx + n < length mesh" by simp
  have "(take idx mesh @ map g [0..<n] @ drop (idx + n) mesh) [idx + n := g n]
          = take idx mesh @ map g [0..<n] @ (drop (idx + n) mesh) [0 := g n]"
    using le by (simp add: list_update_append)
  also have "(drop (idx + n) mesh) [0 := g n] = g n # drop (Suc (idx + n)) mesh"
    using le by (simp add: Cons_nth_drop_Suc [symmetric])
  finally show ?case using Suc by simp
qed

lemma write_run_idx:
  "fst (fold (\<lambda>d st. case st of (k, m) \<Rightarrow> (Suc k, m [k := g d])) [0..<n] (idx, mesh)) = idx + n"
  by (induction n) (simp_all add: case_prod_beta)

lemma layer_step_eq:
  "layer_step wx sy wz b
     = (\<lambda>d st. case st of (k, m) \<Rightarrow>
          (Suc k, m [k := \<lparr>position = (wx, sy - int d, wz), tint = layer_colour b d\<rparr>]))"
  by (rule ext)+ (simp add: layer_step_def)

lemma layer_fold:
  assumes "idx + n \<le> length mesh"
  shows "fold (layer_step wx sy wz b) [0..<n] (idx, mesh)
     = (idx + n,
        take idx mesh
        @ map (\<lambda>d. \<lparr>position = (wx, sy - int d, wz), tint = layer_colour b d\<rparr>) [0..<n]
        @ drop (idx + n) mesh)"
  unfolding layer_step_eq using assms by (rule write_run)

lemma layer_fold_idx:
  "fst (fold (layer_step wx sy wz b) [0..<n] (idx, mesh)) = idx + n"
  unfolding layer_step_eq by (rule write_run_idx)

lemma column_step_mesh:
  assumes "idx + L \<le> length mesh" and "members C = members (C0 :: ctx)"
  shows "\<exists>C'. members C' = members C0 \<and>
     column_step L f cx cz (int (G div 2)) i j (C, idx, mesh)
       = (C', idx + L, take idx mesh @ map (descriptor G f C0 cx cz i j) [0..<L] @ drop (idx + L) mesh)"
  using assms
  by (simp add: column_step_def Let_def layer_fold descriptor_def ctx_fields [OF assms(2)])

lemma column_step_idx:
  "fst (snd (column_step L f cx cz off i j (C, idx, mesh))) = idx + L"
  using layer_fold_idx [of _ _ _ _ L idx mesh]
  by (simp add: column_step_def Let_def case_prod_beta)


lemma length_blocks:
  "(\<And>j. length (blk j) = B) \<Longrightarrow> length (concat (map blk [0..<n])) = n * B"
  by (induction n) simp_all

lemma block_run:
  fixes step :: "nat \<Rightarrow> ctx \<times> nat \<times> inst list \<Rightarrow> ctx \<times> nat \<times> inst list"
  assumes len: "\<And>j. length (blk j) = B"
    and one: "\<And>j C idx mesh. idx + B \<le> length mesh \<Longrightarrow> P C \<Longrightarrow>
               \<exists>C'. P C' \<and> step j (C, idx, mesh)
                       = (C', idx + B, take idx mesh @ blk j @ drop (idx + B) mesh)"
    and fits: "idx + n * B \<le> length mesh" and start: "P C"
  shows "\<exists>C'. P C' \<and> fold step [0..<n] (C, idx, mesh)
           = (C', idx + n * B,
              take idx mesh @ concat (map blk [0..<n]) @ drop (idx + n * B) mesh)"
  using fits
proof (induction n)
  case 0
  then show ?case using start by simp
next
  case (Suc n)
  define D where "D = concat (map blk [0..<n])"
  define M where "M = take idx mesh @ D @ drop (idx + n * B) mesh"
  from Suc obtain C1 where C1: "P C1"
    and run: "fold step [0..<n] (C, idx, mesh) = (C1, idx + n * B, M)"
    unfolding M_def D_def by auto
  have ld: "length D = n * B" unfolding D_def using len by (rule length_blocks)
  have lm: "length M = length mesh" using Suc.prems ld by (simp add: M_def)
  have room: "idx + n * B + B \<le> length M" using Suc.prems lm by simp
  from one [OF room C1] obtain C2 where C2: "P C2"
    and st: "step n (C1, idx + n * B, M)
               = (C2, idx + n * B + B, take (idx + n * B) M @ blk n @ drop (idx + n * B + B) M)"
    by auto
  have tk: "take (idx + n * B) M = take idx mesh @ D"
    using Suc.prems ld by (simp add: M_def)
  have dr: "drop (idx + n * B + B) M = drop (idx + Suc n * B) mesh"
    using Suc.prems ld by (simp add: M_def add.commute add.left_commute)
  have cc: "concat (map blk [0..<Suc n]) = D @ blk n" by (simp add: D_def)
  have ix: "idx + n * B + B = idx + Suc n * B" by simp
  have "fold step [0..<Suc n] (C, idx, mesh) = step n (C1, idx + n * B, M)"
    by (simp add: run)
  also have "\<dots> = (C2, idx + Suc n * B,
                    take idx mesh @ concat (map blk [0..<Suc n]) @ drop (idx + Suc n * B) mesh)"
    unfolding st tk dr cc by simp
  finally show ?case using C2 by blast
qed

lemma block_run_idx:
  fixes step :: "nat \<Rightarrow> ctx \<times> nat \<times> inst list \<Rightarrow> ctx \<times> nat \<times> inst list"
  assumes "\<And>j C idx mesh. fst (snd (step j (C, idx, mesh))) = idx + B"
  shows "fst (snd (fold step [0..<n] (C, idx, mesh))) = idx + n * B"
proof (induction n)
  case 0
  show ?case by simp
next
  case (Suc n)
  obtain C1 k m where r: "fold step [0..<n] (C, idx, mesh) = (C1, k, m)"
    by (cases "fold step [0..<n] (C, idx, mesh)") auto
  with Suc have "k = idx + n * B" by simp
  then show ?case using assms [of n C1 k m] by (simp add: r)
qed


lemma row_run:
  assumes "idx + G' * L \<le> length mesh" and "members C = members (C0 :: ctx)"
  shows "\<exists>C'. members C' = members C0 \<and>
     fold (column_step L f cx cz (int (G div 2)) i) [0..<G'] (C, idx, mesh)
       = (C', idx + G' * L,
          take idx mesh
          @ concat (map (\<lambda>j. map (descriptor G f C0 cx cz i j) [0..<L]) [0..<G'])
          @ drop (idx + G' * L) mesh)"
proof (rule block_run [where P = "\<lambda>C. members C = members C0"])
  show "length (map (descriptor G f C0 cx cz i j) [0..<L]) = L" for j by simp
  show "\<exists>C'. members C' = members C0 \<and>
          column_step L f cx cz (int (G div 2)) i j (C, idx, mesh)
            = (C', idx + L,
               take idx mesh @ map (descriptor G f C0 cx cz i j) [0..<L] @ drop (idx + L) mesh)"
    if "idx + L \<le> length mesh" "members C = members C0" for j C idx mesh
    using that by (rule column_step_mesh)
  show "idx + G' * L \<le> length mesh" by fact
  show "members C = members C0" by fact
qed

lemma grid_run:
  assumes "idx + n * (G * L) \<le> length mesh" and "members C = members (C0 :: ctx)"
  shows "\<exists>C'. members C' = members C0 \<and>
     fold (\<lambda>i. fold (column_step L f cx cz (int (G div 2)) i) [0..<G]) [0..<n] (C, idx, mesh)
       = (C', idx + n * (G * L),
          take idx mesh
          @ concat (map (\<lambda>i. concat (map (\<lambda>j. map (descriptor G f C0 cx cz i j) [0..<L])
                                          [0..<G])) [0..<n])
          @ drop (idx + n * (G * L)) mesh)"
proof (rule block_run [where P = "\<lambda>C. members C = members C0"])
  show "length (concat (map (\<lambda>j. map (descriptor G f C0 cx cz i j) [0..<L]) [0..<G])) = G * L"
    for i by (rule length_blocks) simp
  show "\<exists>C'. members C' = members C0 \<and>
          fold (column_step L f cx cz (int (G div 2)) i) [0..<G] (C, idx, mesh)
            = (C', idx + G * L,
               take idx mesh
               @ concat (map (\<lambda>j. map (descriptor G f C0 cx cz i j) [0..<L]) [0..<G])
               @ drop (idx + G * L) mesh)"
    if "idx + G * L \<le> length mesh" "members C = members C0" for i C idx mesh
    using that by (rule row_run)
  show "idx + n * (G * L) \<le> length mesh" by fact
  show "members C = members C0" by fact
qed

lemma column_loops_window:
  assumes "length mesh = G * G * L"
  shows "\<exists>C'. members C' = members C \<and>
           column_loops G L f cx cz (C, 0, mesh) = (C', G * G * L, window G L f C cx cz)"
proof -
  have "0 + G * (G * L) \<le> length mesh" using assms by (simp add: mult.assoc)
  from grid_run [OF this refl, where f = f and cx = cx and cz = cz]
  show ?thesis using assms by (simp add: column_loops_def window_def mult.assoc)
qed

lemma column_loops_count:
  "fst (snd (column_loops G L f cx cz (C, idx, mesh))) = idx + G * G * L"
proof -
  have row: "fst (snd (fold (column_step L f cx cz off i) [0..<G] (C, idx, mesh))) = idx + G * L"
    for off i C idx mesh
    by (rule block_run_idx) (rule column_step_idx)
  have "fst (snd (fold (\<lambda>i. fold (column_step L f cx cz off i) [0..<G]) [0..<G] (C, idx, mesh)))
          = idx + G * (G * L)" for off
    by (rule block_run_idx) (rule row)
  then show ?thesis by (simp add: column_loops_def mult.assoc)
qed

lemma length_window: "length (window G L f C cx cz) = G * G * L"
proof -
  have "length (concat (map (\<lambda>j. map (descriptor G f C cx cz i j) [0..<L]) [0..<G])) = G * L"
    for i by (rule length_blocks) simp
  then have "length (window G L f C cx cz) = G * (G * L)"
    unfolding window_def by (rule length_blocks)
  then show ?thesis by (simp add: mult.assoc)
qed


lemma nth_blocks:
  assumes len: "\<And>j. length (blk j) = B" and "i < n" and "k < B"
  shows "concat (map blk [0..<n]) ! (i * B + k) = blk i ! k"
  using assms(2)
proof (induction n)
  case 0
  then show ?case by simp
next
  case (Suc n)
  have ld: "length (concat (map blk [0..<n])) = n * B" using len by (rule length_blocks)
  show ?case
  proof (cases "i < n")
    case True
    then have "i * B + k < n * B"
    proof -
      have "i * B + k < i * B + B" using assms(3) by simp
      also have "\<dots> = Suc i * B" by simp
      also have "\<dots> \<le> n * B" using True by (intro mult_le_mono1) simp
      finally show ?thesis .
    qed
    then show ?thesis using Suc.IH [OF True] ld by (simp add: nth_append)
  next
    case False
    then have "i = n" using Suc.prems by simp
    then show ?thesis using ld by (simp add: nth_append)
  qed
qed

lemma window_nth:
  assumes "i < G" and "j < G" and "d < L"
  shows "window G L f C cx cz ! ((i * G + j) * L + d) = descriptor G f C cx cz i j d"
proof -
  let ?row = "\<lambda>i. concat (map (\<lambda>j. map (descriptor G f C cx cz i j) [0..<L]) [0..<G])"
  have lrow: "length (?row i) = G * L" for i by (rule length_blocks) simp
  have "j * L + d < j * L + L" using assms(3) by simp
  also have "\<dots> = Suc j * L" by simp
  also have "\<dots> \<le> G * L" using assms(2) by (intro mult_le_mono1) simp
  finally have inrow: "j * L + d < G * L" .
  have ix: "(i * G + j) * L + d = i * (G * L) + (j * L + d)" by (simp add: algebra_simps)
  have "window G L f C cx cz ! ((i * G + j) * L + d) = ?row i ! (j * L + d)"
    unfolding window_def ix
    by (rule nth_blocks [of ?row "G * L" i G "j * L + d", OF lrow assms(1) inrow])
  also have "\<dots> = map (descriptor G f C cx cz i j) [0..<L] ! d"
    by (rule nth_blocks) (use assms in simp_all)
  also have "\<dots> = descriptor G f C cx cz i j d" using assms(3) by simp
  finally show ?thesis .
qed

lemma updateTerrain_none: "compiledFunc s = None \<Longrightarrow> updateTerrain G L ref force s = s"
  by (simp add: updateTerrain_def)

lemma updateTerrain_near:
  "\<bar>\<lfloor>fst ref\<rfloor> - lastUpdateX s\<bar> < 2 \<Longrightarrow> \<bar>\<lfloor>snd ref\<rfloor> - lastUpdateZ s\<bar> < 2 \<Longrightarrow>
   updateTerrain G L ref False s = s"
  by (simp add: updateTerrain_def Let_def split: option.split)

lemma updateTerrain_refresh:
  assumes "compiledFunc s = Some f"
    and "force \<or> 2 \<le> \<bar>\<lfloor>fst ref\<rfloor> - lastUpdateX s\<bar> \<or> 2 \<le> \<bar>\<lfloor>snd ref\<rfloor> - lastUpdateZ s\<bar>"
    and "length (instMesh s) = G * G * L"
  shows "\<exists>C'. members C' = members (Ctx s) \<and>
           updateTerrain G L ref force s
             = s \<lparr>lastUpdateX := \<lfloor>fst ref\<rfloor>, lastUpdateZ := \<lfloor>snd ref\<rfloor>, Ctx := C',
                  instMesh := window G L f (Ctx s) \<lfloor>fst ref\<rfloor> \<lfloor>snd ref\<rfloor>\<rparr>"
proof -
  from column_loops_window [OF assms(3), where f = f and cx = "\<lfloor>fst ref\<rfloor>"
      and cz = "\<lfloor>snd ref\<rfloor>" and C = "Ctx s"]
  obtain C' where C': "members C' = members (Ctx s)"
    and run: "column_loops G L f \<lfloor>fst ref\<rfloor> \<lfloor>snd ref\<rfloor> (Ctx s, 0, instMesh s)
                = (C', G * G * L, window G L f (Ctx s) \<lfloor>fst ref\<rfloor> \<lfloor>snd ref\<rfloor>)"
    by blast
  have guard: "\<not> (\<not> force \<and> \<bar>\<lfloor>fst ref\<rfloor> - lastUpdateX s\<bar> < 2 \<and> \<bar>\<lfloor>snd ref\<rfloor> - lastUpdateZ s\<bar> < 2)"
    using assms(2) by auto
  have "updateTerrain G L ref force s
          = s \<lparr>lastUpdateX := \<lfloor>fst ref\<rfloor>, lastUpdateZ := \<lfloor>snd ref\<rfloor>, Ctx := C',
               instMesh := window G L f (Ctx s) \<lfloor>fst ref\<rfloor> \<lfloor>snd ref\<rfloor>\<rparr>"
    unfolding updateTerrain_def by (simp only: assms(1) option.case Let_def if_not_P [OF guard])
      (simp add: run)
  then show ?thesis using C' by blast
qed




text \<open>
  C8. A refresh that passes the guard writes exactly \<open>GRID * GRID * LAYERS\<close>
  descriptors: the running index ends at that number, and the mesh, which has that many
  instances, is the window's descriptor list. The descriptor at index
  \<open>(i * GRID + j) * LAYERS + d\<close> is that of layer \<open>d\<close> of the column with outer
  index \<open>i\<close> and inner index \<open>j\<close>, at the column's world coordinates and \<open>d\<close>
  below its surface level; the mapping depends on nothing but the three indices.
\<close>

theorem refresh_emits_window:
  assumes "compiledFunc s = Some f"
    and "force \<or> 2 \<le> \<bar>\<lfloor>fst ref\<rfloor> - lastUpdateX s\<bar> \<or> 2 \<le> \<bar>\<lfloor>snd ref\<rfloor> - lastUpdateZ s\<bar>"
    and "length (instMesh s) = GRID * GRID * LAYERS"
  shows "fst (snd (column_loops GRID LAYERS f \<lfloor>fst ref\<rfloor> \<lfloor>snd ref\<rfloor> (Ctx s, 0, instMesh s)))
           = GRID * GRID * LAYERS
       \<and> instMesh (updateTerrain GRID LAYERS ref force s)
           = window GRID LAYERS f (Ctx s) \<lfloor>fst ref\<rfloor> \<lfloor>snd ref\<rfloor>
       \<and> length (instMesh (updateTerrain GRID LAYERS ref force s)) = GRID * GRID * LAYERS
       \<and> (\<forall>i<GRID. \<forall>j<GRID. \<forall>d<LAYERS.
             instMesh (updateTerrain GRID LAYERS ref force s) ! ((i * GRID + j) * LAYERS + d)
               = descriptor GRID f (Ctx s) \<lfloor>fst ref\<rfloor> \<lfloor>snd ref\<rfloor> i j d
           \<and> fst (position (descriptor GRID f (Ctx s) \<lfloor>fst ref\<rfloor> \<lfloor>snd ref\<rfloor> i j d))
               = \<lfloor>fst ref\<rfloor> - int (GRID div 2) + int i
           \<and> snd (snd (position (descriptor GRID f (Ctx s) \<lfloor>fst ref\<rfloor> \<lfloor>snd ref\<rfloor> i j d)))
               = \<lfloor>snd ref\<rfloor> - int (GRID div 2) + int j
           \<and> fst (snd (position (descriptor GRID f (Ctx s) \<lfloor>fst ref\<rfloor> \<lfloor>snd ref\<rfloor> i j d)))
               = fst (snd (position (descriptor GRID f (Ctx s) \<lfloor>fst ref\<rfloor> \<lfloor>snd ref\<rfloor> i j 0)))
                   - int d)"
proof -
  from updateTerrain_refresh [OF assms]
  have mesh: "instMesh (updateTerrain GRID LAYERS ref force s)
                = window GRID LAYERS f (Ctx s) \<lfloor>fst ref\<rfloor> \<lfloor>snd ref\<rfloor>"
    by auto
  have count: "fst (snd (column_loops GRID LAYERS f \<lfloor>fst ref\<rfloor> \<lfloor>snd ref\<rfloor> (Ctx s, 0, instMesh s)))
                 = GRID * GRID * LAYERS"
    using column_loops_count [of GRID LAYERS f _ _ "Ctx s" 0 "instMesh s"] by simp
  show ?thesis
    unfolding mesh using count
    by (simp add: length_window window_nth) (simp add: descriptor_def Let_def)
qed


lemma demo_state_fields:
  "compiledFunc demo_state = Some sum_formula"
  "lastUpdateX demo_state = 0"
  "lastUpdateZ demo_state = 0"
  "Ctx demo_state = sample_ctx zero_perm"
  "length (instMesh demo_state) = 8"
  by (simp_all add: demo_state_def)

theorem refresh_emits_window_witness:
  "compiledFunc demo_state = Some sum_formula
   \<and> length (instMesh demo_state) = 2 * 2 * 2
   \<and> length (instMesh (updateTerrain 2 2 (0, 0) True demo_state)) = 8
   \<and> instMesh (updateTerrain 2 2 (0, 0) True demo_state) ! 5
       = \<lparr>position = (0, - 2, - 1), tint = (stone, 0.85)\<rparr>"
proof -
  have c: "compiledFunc demo_state = Some sum_formula"
    by (simp add: demo_state_fields)
  have l: "length (instMesh demo_state) = 2 * 2 * 2"
    by (simp add: demo_state_fields)
  have g: "True \<or> 2 \<le> \<bar>\<lfloor>fst (0::real, 0::real)\<rfloor> - lastUpdateX demo_state\<bar>
             \<or> 2 \<le> \<bar>\<lfloor>snd (0::real, 0::real)\<rfloor> - lastUpdateZ demo_state\<bar>"
    by simp
  note R = refresh_emits_window [of demo_state sum_formula True "(0, 0)" 2 2, OF c g l]
  note len = R [THEN conjunct2, THEN conjunct2, THEN conjunct1]
  note nth = R [THEN conjunct2, THEN conjunct2, THEN conjunct2, rule_format, of 1 0 1,
                THEN conjunct1]
  have "instMesh (updateTerrain 2 2 (0, 0) True demo_state) ! 5
          = descriptor 2 sum_formula (Ctx demo_state) 0 0 1 0 1"
    using nth by simp
  also have "\<dots> = \<lparr>position = (0, - 2, - 1), tint = (stone, 0.85)\<rparr>"
    by (simp add: descriptor_def sum_formula_def height_def classify_def ladder_def
        layer_colour_def Let_def)
  finally show ?thesis using c l len by simp
qed


subsection \<open>Functions that write the context\<close>

text \<open>For a function that only reads the context the two loop bodies are the same.\<close>

lemma column_step_reading:
  "column_step_w L (reading f) cx cz off i j st = column_step L f cx cz off i j st"
  by (simp add: column_step_w_def column_step_def reading_def Let_def split: prod.split)

lemma column_loops_reading:
  "column_loops_w G L (reading f) cx cz st = column_loops G L f cx cz st"
  by (simp add: column_loops_w_def column_loops_def column_step_reading [abs_def])






















text \<open>
  C4, as amended. With no compiled function in effect the call is a no-op whatever the
  deltas and the force flag. With \<open>force = false\<close> and both axis deltas between the
  floored reference point and the last-refreshed centre strictly below 2, the call is a
  no-op. With a compiled function in effect, \<open>force = false\<close> and a delta of 2 or
  more on either axis, the call records the new centre and rewrites the whole window.
\<close>

theorem hysteresis_guard:
  "(compiledFunc s = None \<longrightarrow> updateTerrain GRID LAYERS ref force s = s)
   \<and> (\<bar>\<lfloor>fst ref\<rfloor> - lastUpdateX s\<bar> < 2 \<and> \<bar>\<lfloor>snd ref\<rfloor> - lastUpdateZ s\<bar> < 2
        \<longrightarrow> updateTerrain GRID LAYERS ref False s = s)
   \<and> (compiledFunc s = Some f
        \<and> (2 \<le> \<bar>\<lfloor>fst ref\<rfloor> - lastUpdateX s\<bar> \<or> 2 \<le> \<bar>\<lfloor>snd ref\<rfloor> - lastUpdateZ s\<bar>)
        \<and> length (instMesh s) = GRID * GRID * LAYERS
        \<longrightarrow> lastUpdateX (updateTerrain GRID LAYERS ref False s) = \<lfloor>fst ref\<rfloor>
          \<and> lastUpdateZ (updateTerrain GRID LAYERS ref False s) = \<lfloor>snd ref\<rfloor>
          \<and> instMesh (updateTerrain GRID LAYERS ref False s)
              = window GRID LAYERS f (Ctx s) \<lfloor>fst ref\<rfloor> \<lfloor>snd ref\<rfloor>)"
proof (intro conjI impI)
  assume "compiledFunc s = None"
  then show "updateTerrain GRID LAYERS ref force s = s" by (rule updateTerrain_none)
next
  assume "\<bar>\<lfloor>fst ref\<rfloor> - lastUpdateX s\<bar> < 2 \<and> \<bar>\<lfloor>snd ref\<rfloor> - lastUpdateZ s\<bar> < 2"
  then show "updateTerrain GRID LAYERS ref False s = s" by (simp add: updateTerrain_near)
next
  assume a: "compiledFunc s = Some f
        \<and> (2 \<le> \<bar>\<lfloor>fst ref\<rfloor> - lastUpdateX s\<bar> \<or> 2 \<le> \<bar>\<lfloor>snd ref\<rfloor> - lastUpdateZ s\<bar>)
        \<and> length (instMesh s) = GRID * GRID * LAYERS"
  then have "\<exists>C'. members C' = members (Ctx s) \<and>
           updateTerrain GRID LAYERS ref False s
             = s \<lparr>lastUpdateX := \<lfloor>fst ref\<rfloor>, lastUpdateZ := \<lfloor>snd ref\<rfloor>, Ctx := C',
                  instMesh := window GRID LAYERS f (Ctx s) \<lfloor>fst ref\<rfloor> \<lfloor>snd ref\<rfloor>\<rparr>"
    by (intro updateTerrain_refresh) auto
  then obtain C' where r: "updateTerrain GRID LAYERS ref False s
             = s \<lparr>lastUpdateX := \<lfloor>fst ref\<rfloor>, lastUpdateZ := \<lfloor>snd ref\<rfloor>, Ctx := C',
                  instMesh := window GRID LAYERS f (Ctx s) \<lfloor>fst ref\<rfloor> \<lfloor>snd ref\<rfloor>\<rparr>"
    by blast
  show "lastUpdateX (updateTerrain GRID LAYERS ref False s) = \<lfloor>fst ref\<rfloor>" by (simp add: r)
  show "lastUpdateZ (updateTerrain GRID LAYERS ref False s) = \<lfloor>snd ref\<rfloor>" by (simp add: r)
  show "instMesh (updateTerrain GRID LAYERS ref False s)
              = window GRID LAYERS f (Ctx s) \<lfloor>fst ref\<rfloor> \<lfloor>snd ref\<rfloor>" by (simp add: r)
qed

text \<open>
  The claim as stated fails when no function is compiled: the reference point is 3 units
  from the last-refreshed centre, and the call changes nothing.
\<close>

theorem hysteresis_counterexample:
  "2 \<le> \<bar>\<lfloor>fst (3::real, 0::real)\<rfloor> - lastUpdateX (demo_state \<lparr>compiledFunc := None\<rparr>)\<bar>
   \<and> updateTerrain 2 2 (3, 0) False (demo_state \<lparr>compiledFunc := None\<rparr>)
       = demo_state \<lparr>compiledFunc := None\<rparr>
   \<and> lastUpdateX (updateTerrain 2 2 (3, 0) False (demo_state \<lparr>compiledFunc := None\<rparr>)) \<noteq> 3"
  by (simp add: updateTerrain_def demo_state_fields)



theorem hysteresis_guard_witness:
  "\<bar>\<lfloor>fst (1::real, 1::real)\<rfloor> - lastUpdateX demo_state\<bar> < 2
   \<and> \<bar>\<lfloor>snd (1::real, 1::real)\<rfloor> - lastUpdateZ demo_state\<bar> < 2
   \<and> updateTerrain 2 2 (1, 1) False demo_state = demo_state
   \<and> compiledFunc demo_state = Some sum_formula
   \<and> 2 \<le> \<bar>\<lfloor>fst (3::real, 0::real)\<rfloor> - lastUpdateX demo_state\<bar>
   \<and> length (instMesh demo_state) = 2 * 2 * 2
   \<and> lastUpdateX (updateTerrain 2 2 (3, 0) False demo_state) = 3
   \<and> updateTerrain 2 2 (3, 0) True (demo_state \<lparr>compiledFunc := None\<rparr>)
       = demo_state \<lparr>compiledFunc := None\<rparr>"
proof -
  have n: "\<bar>\<lfloor>fst (1::real, 1::real)\<rfloor> - lastUpdateX demo_state\<bar> < 2
             \<and> \<bar>\<lfloor>snd (1::real, 1::real)\<rfloor> - lastUpdateZ demo_state\<bar> < 2"
    by (simp add: demo_state_fields)
  have c: "compiledFunc demo_state = Some sum_formula
        \<and> (2 \<le> \<bar>\<lfloor>fst (3::real, 0::real)\<rfloor> - lastUpdateX demo_state\<bar>
             \<or> 2 \<le> \<bar>\<lfloor>snd (3::real, 0::real)\<rfloor> - lastUpdateZ demo_state\<bar>)
        \<and> length (instMesh demo_state) = 2 * 2 * 2"
    by (simp add: demo_state_fields)
  have e: "compiledFunc (demo_state \<lparr>compiledFunc := None\<rparr>) = None" by simp
  have near: "updateTerrain 2 2 (1, 1) False demo_state = demo_state"
    by (rule hysteresis_guard [of demo_state 2 2 "(1, 1)" False sum_formula,
          THEN conjunct2, THEN conjunct1, rule_format, OF n])
  have "lastUpdateX (updateTerrain 2 2 (3, 0) False demo_state) = \<lfloor>fst (3::real, 0::real)\<rfloor>"
    by (rule hysteresis_guard [of demo_state 2 2 "(3, 0)" False sum_formula,
          THEN conjunct2, THEN conjunct2, rule_format, OF c, THEN conjunct1])
  then have far: "lastUpdateX (updateTerrain 2 2 (3, 0) False demo_state) = 3"
    by simp
  have idle: "updateTerrain 2 2 (3, 0) True (demo_state \<lparr>compiledFunc := None\<rparr>)
                = demo_state \<lparr>compiledFunc := None\<rparr>"
    by (rule hysteresis_guard [of "demo_state \<lparr>compiledFunc := None\<rparr>" 2 2 "(3, 0)" True sum_formula,
          THEN conjunct1, rule_format, OF e])
  have d: "2 \<le> \<bar>\<lfloor>fst (3::real, 0::real)\<rfloor> - lastUpdateX demo_state\<bar>"
    by (simp add: demo_state_fields)
  from n c d near far idle show ?thesis by blast
qed


subsection \<open>Compilation\<close>

lemmas engine_eval =
  js_engine_def body_def replace_caret_def lex_def digit_def letter_def punct_def literal_def
  decimal_def digit_val_def unwrap_def parse_def reserved_def build_def

lemma engine_sum: "js_engine (body (replace_caret ''x + z'')) = Inr (run (Bin Add (Var ''x'') (Var ''z'')))"
  by (simp add: engine_eval)

lemma engine_dangling: "js_engine (body (replace_caret ''x +'')) = Inl ''Unexpected token''"
  by (simp add: engine_eval)

lemma run_sum:
  "members C ''x'' = None \<Longrightarrow> members C ''z'' = None \<Longrightarrow>
   run (Bin Add (Var ''x'') (Var ''z'')) C a b = Returned (Num (Fin (a + b)))"
  by (simp add: run_def lookup_def binop_val_def to_num_def)

text \<open>
  C6. For a context that has no member named \<open>x\<close> or \<open>z\<close>, as \<open>Ctx\<close> has
  none: compiling \<open>x + z\<close> succeeds, hides the error element, and the function
  called with the context, 2 and 3 returns 5; compiling \<open>x +\<close> fails, gives
  \<open>null\<close> and shows the warning sign followed by the engine's message. For every
  engine and text, once the callable is built the outcome is decided by the single call
  at \<open>(0, 0)\<close>: the function is kept unless that call throws.
\<close>

theorem compile_sum_and_dangling:
  assumes "members C ''x'' = None" and "members C ''z'' = None"
  shows "(\<exists>f. compileFormula js_engine C err ''x + z'' = (Some f, err \<lparr>error_hidden := True\<rparr>)
              \<and> f C 2 3 = Returned (Num (Fin 5)))
       \<and> (\<exists>msg. msg \<noteq> [] \<and> compileFormula js_engine C err ''x +''
              = (None, \<lparr>textContent = warn @ msg, error_hidden = False\<rparr>))
       \<and> (\<forall>(newFunction :: string \<Rightarrow> string + hfun) str f.
             newFunction (body (replace_caret str)) = Inr f \<longrightarrow>
             fst (compileFormula newFunction C err str)
               = (case f C 0 0 of Threw msg \<Rightarrow> None | Returned v \<Rightarrow> Some f))"
proof (intro conjI allI impI)
  show "\<exists>f. compileFormula js_engine C err ''x + z'' = (Some f, err \<lparr>error_hidden := True\<rparr>)
              \<and> f C 2 3 = Returned (Num (Fin 5))"
    using run_sum [OF assms]
    by (intro exI [of _ "run (Bin Add (Var ''x'') (Var ''z''))"])
       (simp add: compileFormula_def engine_sum)
  show "\<exists>msg. msg \<noteq> [] \<and> compileFormula js_engine C err ''x +''
              = (None, \<lparr>textContent = warn @ msg, error_hidden = False\<rparr>)"
    by (intro exI [of _ "''Unexpected token''"])
       (simp add: compileFormula_def engine_dangling report_def)
next
  fix newFunction :: "string \<Rightarrow> string + hfun" and str f
  assume "newFunction (body (replace_caret str)) = Inr f"
  then show "fst (compileFormula newFunction C err str)
               = (case f C 0 0 of Threw msg \<Rightarrow> None | Returned v \<Rightarrow> Some f)"
    by (simp add: compileFormula_def report_def split: outcome.split)
qed

lemma sample_ctx_xz: "members (sample_ctx p) ''x'' = None" "members (sample_ctx p) ''z'' = None"
  by (simp_all add: sample_ctx_def)

theorem compile_sum_and_dangling_witness:
  "members (sample_ctx zero_perm) ''x'' = None \<and> members (sample_ctx zero_perm) ''z'' = None
   \<and> fst (compileFormula js_engine (sample_ctx zero_perm) \<lparr>textContent = [], error_hidden = True\<rparr> ''x +'')
        = None
   \<and> fst (compileFormula js_engine (sample_ctx zero_perm) \<lparr>textContent = [], error_hidden = True\<rparr> ''x + z'')
        \<noteq> None"
  using compile_sum_and_dangling [OF sample_ctx_xz, of zero_perm "\<lparr>textContent = [], error_hidden = True\<rparr>"]
    sample_ctx_xz [of zero_perm]
  by auto

lemma compile_failure:
  assumes "newFunction (body (replace_caret formula)) = Inl msg
           \<or> (\<exists>f. newFunction (body (replace_caret formula)) = Inr f \<and> f C 0 0 = Threw msg)"
  shows "compileFormula newFunction C err formula = report msg"
  using assms by (auto simp: compileFormula_def)

text \<open>
  C2, as amended. When compiling the formula text fails, because the engine rejects the
  text or because the call at \<open>(0, 0)\<close> throws, the listener stores \<open>null\<close> as the
  compiled function and shows the message. The forced refresh that follows and every
  later call of \<open>updateTerrain\<close>, forced or not, are no-ops: the mesh and the
  last-refreshed centre stay as they were.
\<close>

theorem failed_compile_clears_function:
  assumes "newFunction (body (replace_caret formula)) = Inl msg
           \<or> (\<exists>f. newFunction (body (replace_caret formula)) = Inr f \<and> f (Ctx s) 0 0 = Threw msg)"
  shows "on_input newFunction GRID LAYERS ref formula s
           = s \<lparr>compiledFunc := None,
                errorMsg := \<lparr>textContent = warn @ msg, error_hidden = False\<rparr>\<rparr>
       \<and> compiledFunc (on_input newFunction GRID LAYERS ref formula s) = None
       \<and> instMesh (on_input newFunction GRID LAYERS ref formula s) = instMesh s
       \<and> lastUpdateX (on_input newFunction GRID LAYERS ref formula s) = lastUpdateX s
       \<and> lastUpdateZ (on_input newFunction GRID LAYERS ref formula s) = lastUpdateZ s
       \<and> (\<forall>ref' force. updateTerrain GRID LAYERS ref' force
                          (on_input newFunction GRID LAYERS ref formula s)
                        = on_input newFunction GRID LAYERS ref formula s)"
proof -
  have "on_input newFunction GRID LAYERS ref formula s
           = s \<lparr>compiledFunc := None,
                errorMsg := \<lparr>textContent = warn @ msg, error_hidden = False\<rparr>\<rparr>"
    using compile_failure [where newFunction = newFunction and formula = formula and msg = msg
        and C = "Ctx s" and err = "errorMsg s"] assms
    by (simp add: on_input_def report_def updateTerrain_none)
  then show ?thesis by (simp add: updateTerrain_none)
qed

text \<open>
  The claim as stated fails: a function is in effect, the text \<open>x +\<close> is rejected,
  and afterwards no function is in effect.
\<close>

theorem failed_compile_counterexample:
  "js_engine (body (replace_caret ''x +'')) = Inl ''Unexpected token''
   \<and> compiledFunc demo_state = Some sum_formula
   \<and> compiledFunc (on_input js_engine 2 2 (0, 0) ''x +'' demo_state) = None
   \<and> compiledFunc (on_input js_engine 2 2 (0, 0) ''x +'' demo_state) \<noteq> compiledFunc demo_state"
  by (simp add: on_input_def compileFormula_def engine_dangling report_def updateTerrain_none
      demo_state_fields)

theorem failed_compile_clears_function_witness:
  "js_engine (body (replace_caret ''x +'')) = Inl ''Unexpected token''
   \<and> on_input js_engine 2 2 (3, 0) ''x +'' demo_state
       = demo_state \<lparr>compiledFunc := None,
           errorMsg := \<lparr>textContent = warn @ ''Unexpected token'', error_hidden = False\<rparr>\<rparr>
   \<and> updateTerrain 2 2 (7, 7) True (on_input js_engine 2 2 (3, 0) ''x +'' demo_state)
       = on_input js_engine 2 2 (3, 0) ''x +'' demo_state"
proof -
  have h: "js_engine (body (replace_caret ''x +'')) = Inl ''Unexpected token''
           \<or> (\<exists>f. js_engine (body (replace_caret ''x +'')) = Inr f
                    \<and> f (Ctx demo_state) 0 0 = Threw ''Unexpected token'')"
    by (simp add: engine_dangling)
  note R = failed_compile_clears_function [where newFunction = js_engine and formula = "''x +''"
      and msg = "''Unexpected token''" and s = demo_state and GRID = 2 and LAYERS = 2
      and ref = "(3, 0)", OF h]
  show ?thesis
    using engine_dangling R [THEN conjunct1]
      R [THEN conjunct2, THEN conjunct2, THEN conjunct2, THEN conjunct2, THEN conjunct2,
         rule_format, of "(7, 7)" True]
    by blast
qed


subsection \<open>The generator\<close>

lemma lexrun_append:
  "lexrun (a @ b) st = (case lexrun a st of None \<Rightarrow> None | Some st' \<Rightarrow> lexrun b st')"
  by (induction a arbitrary: st) (simp_all split: option.split)

lemma prun_append:
  "prun (a @ b) st = (case prun a st of None \<Rightarrow> None | Some st' \<Rightarrow> prun b st')"
  by (induction a arbitrary: st) (simp_all split: option.split)

lemma lexes_done_append:
  "lexes_done a ta \<Longrightarrow> lexes_done b tb \<Longrightarrow> lexes_done (a @ b) (ta @ tb)"
  by (simp add: lexes_done_def lexrun_append)

lemma lexes_done_then:
  "lexes_done a ta \<Longrightarrow> lexes b tb \<Longrightarrow> lexes (a @ b) (ta @ tb)"
  by (simp add: lexes_done_def lexes_def lexrun_append)

lemma lexes_done_lexes: "lexes_done a ta \<Longrightarrow> lexes a ta"
  by (simp add: lexes_done_def lexes_def)

lemma lexes_delim:
  assumes "lexes a ta" and "punct c = Some ps" and "\<not> digit c" and "\<not> letter c" and "c \<noteq> CHR ''.''"
  shows "lexes_done (a @ [c]) (ta @ ps)"
  unfolding lexes_done_def
proof
  fix out
  from assms(1) obtain p out' fl where r: "lexrun a (Idle, out) = Some (p, out')"
    and f: "flush p = Some fl" and e: "rev fl @ out' = rev ta @ out"
    unfolding lexes_def by blast
  have "lstep c (p, out') = Some (Idle, rev ps @ rev fl @ out')"
    using assms(2-5) f by simp
  then show "lexrun (a @ [c]) (Idle, out) = Some (Idle, rev (ta @ ps) @ out)"
    using r e by (simp add: lexrun_append)
qed

lemma lexrun_digits_int:
  "list_all digit ds \<Longrightarrow> lexrun ds (PInt d0, out) = Some (PInt (d0 @ ds), out)"
  by (induction ds arbitrary: d0) simp_all

lemma lexrun_digits_frac:
  "list_all digit fs \<Longrightarrow> lexrun fs (PFrac ds f0, out) = Some (PFrac ds (f0 @ fs), out)"
  by (induction fs arbitrary: f0) simp_all

lemma lexrun_digits_start:
  "ds \<noteq> [] \<Longrightarrow> list_all digit ds \<Longrightarrow> lexrun ds (Idle, out) = Some (PInt ds, out)"
  by (cases ds) (simp_all add: lexrun_digits_int)

lemma lexes_integer:
  assumes "ds \<noteq> []" and "list_all digit ds" and "ds = ''0'' \<or> take 1 ds \<noteq> ''0''"
  shows "\<exists>v. lexes ds [TNum v]"
  using assms by (auto simp: lexes_def lexrun_digits_start literal_def)

lemma lexes_decimal:
  assumes "ds \<noteq> []" and "list_all digit ds" and "list_all digit fs"
    and "ds = ''0'' \<or> take 1 ds \<noteq> ''0''"
  shows "\<exists>v. lexes (ds @ ''.'' @ fs) [TNum v]"
proof -
  have dot: "lstep (CHR ''.'') (PInt ds, out) = Some (PFrac ds [], out)" for out
    by (simp add: digit_def letter_def)
  have "lexrun (ds @ ''.'' @ fs) (Idle, out) = Some (PFrac ds fs, out)" for out
    using assms(1-3) dot by (simp add: lexrun_append lexrun_digits_start lexrun_digits_frac)
  then show ?thesis using assms(4) by (auto simp: lexes_def literal_def)
qed

lemma digit_char_digit: "k < 10 \<Longrightarrow> digit (digit_char k)"
proof -
  assume "k < 10"
  then have "k \<in> {0,1,2,3,4,5,6,7,8,9}" by auto
  then show ?thesis by (auto simp: digit_char_def digit_def)
qed

lemma digit_char_zero: "k < 10 \<Longrightarrow> digit_char k = CHR ''0'' \<longleftrightarrow> k = 0"
proof -
  assume "k < 10"
  then have "k \<in> {0,1,2,3,4,5,6,7,8,9}" by auto
  then show ?thesis by (auto simp: digit_char_def)
qed

lemma digits_digit: "list_all digit (digits n)"
proof (induction n rule: digits.induct)
  case (1 n)
  show ?case
  proof (cases "n < 10")
    case True
    then show ?thesis by (subst digits.simps) (simp add: digit_char_digit)
  next
    case False
    then show ?thesis using 1 by (subst digits.simps) (simp add: digit_char_digit)
  qed
qed

lemma digits_nonempty: "digits n \<noteq> []"
  by (subst digits.simps) simp

lemma digits_head: "0 < n \<Longrightarrow> hd (digits n) \<noteq> CHR ''0''"
proof (induction n rule: digits.induct)
  case (1 n)
  show ?case
  proof (cases "n < 10")
    case True
    then show ?thesis using 1(2) by (subst digits.simps) (simp add: digit_char_zero)
  next
    case False
    then have "0 < n div 10" by simp
    with 1(1) False have "hd (digits (n div 10)) \<noteq> CHR ''0''" by simp
    then show ?thesis using False digits_nonempty [of "n div 10"]
      by (subst digits.simps) simp
  qed
qed

lemma digits_zero: "digits 0 = ''0''"
  by (subst digits.simps) (simp add: digit_char_def)

lemma digits_lead: "digits n = ''0'' \<or> take 1 (digits n) \<noteq> ''0''"
proof (cases "n = 0")
  case True
  then show ?thesis by (simp add: digits_zero)
next
  case False
  then have "hd (digits n) \<noteq> CHR ''0''" by (simp add: digits_head)
  then have "take 1 (digits n) \<noteq> ''0''"
    using digits_nonempty [of n] by (cases "digits n") auto
  then show ?thesis ..
qed

lemma digits_long: "1 < length (digits n) \<Longrightarrow> 0 < n"
  by (cases "n = 0") (simp_all add: digits_zero)

lemma toFixed_fraction:
  assumes "0 \<le> x" and "0 < f"
  shows "\<exists>a b. toFixed f x = a @ ''.'' @ b \<and> a \<noteq> [] \<and> list_all digit a \<and> list_all digit b
           \<and> (a = ''0'' \<or> take 1 a \<noteq> ''0'')"
proof -
  define n where "n = nat \<lfloor>\<bar>x\<bar> * 10 ^ f + 1 / 2\<rfloor>"
  define m where "m = digits n"
  define m' where "m' = replicate (Suc f - length m) (CHR ''0'') @ m"
  define k where "k = length m' - f"
  have tf: "toFixed f x = take k m' @ ''.'' @ drop k m'"
    using assms by (simp add: toFixed_def Let_def n_def m_def m'_def k_def)
  have dm: "list_all digit m" unfolding m_def by (rule digits_digit)
  have z: "digit (CHR ''0'')" by (simp add: digit_def)
  have dm': "list_all digit m'"
    using dm z by (auto simp: m'_def list_all_iff)
  have mne: "m \<noteq> []" unfolding m_def by (rule digits_nonempty)
  have lead: "take k m' = ''0'' \<or> take 1 (take k m') \<noteq> ''0''"
  proof (cases "length m \<le> f")
    case True
    then have "m' = CHR ''0'' # replicate (f - length m) (CHR ''0'') @ m"
      by (simp add: m'_def Suc_diff_le)
    moreover have "k = 1" using True by (simp add: k_def m'_def)
    ultimately show ?thesis by simp
  next
    case False
    then have eq: "m' = m" by (simp add: m'_def)
    have "1 < length m" using False assms(2) by simp
    then have "0 < n" unfolding m_def by (rule digits_long)
    then have "hd m \<noteq> CHR ''0''" unfolding m_def by (rule digits_head)
    moreover have "0 < k" using False by (simp add: k_def eq)
    ultimately have "take 1 (take k m') \<noteq> ''0''"
      using mne by (cases m) (auto simp: eq take_Cons' )
    then show ?thesis ..
  qed
  have kpos: "0 < k" by (simp add: k_def m'_def)
  have "m' \<noteq> []" using mne by (simp add: m'_def)
  then have ane: "take k m' \<noteq> []" using kpos by (cases m') simp_all
  have "list_all digit (take k m')" "list_all digit (drop k m')"
    using dm' by (auto simp: list_all_iff dest: in_set_takeD in_set_dropD)
  then show ?thesis using tf ane lead by blast
qed

lemma toFixed_integer:
  assumes "0 \<le> x"
  shows "toFixed 0 x \<noteq> [] \<and> list_all digit (toFixed 0 x)
         \<and> (toFixed 0 x = ''0'' \<or> take 1 (toFixed 0 x) \<noteq> ''0'')"
  using assms digits_lead by (simp add: toFixed_def Let_def digits_digit digits_nonempty)

lemma lexes_toFixed: "0 \<le> x \<Longrightarrow> \<exists>v. lexes (toFixed f x) [TNum v]"
proof (cases "f = 0")
  case True
  assume "0 \<le> x"
  from toFixed_integer [OF this] show ?thesis
    unfolding True by (intro lexes_integer) auto
next
  case False
  assume "0 \<le> x"
  from toFixed_fraction [OF this, of f] False obtain a b where
    "toFixed f x = a @ ''.'' @ b" "a \<noteq> []" "list_all digit a" "list_all digit b"
    "a = ''0'' \<or> take 1 a \<noteq> ''0''" by auto
  then show ?thesis using lexes_decimal [of a b] by auto
qed

lemmas lexer_eval = digit_def letter_def punct_def literal_def decimal_def digit_val_def

lemma delim_space: "lexes a ta \<Longrightarrow> lexes_done (a @ '' '') ta"
  using lexes_delim [of a ta "CHR '' ''" "[]"] by (simp add: lexer_eval)

lemma delim_close: "lexes a ta \<Longrightarrow> lexes_done (a @ '')'') (ta @ [TRP])"
  using lexes_delim [of a ta "CHR '')''" "[TRP]"] by (simp add: lexer_eval)

lemma delim_comma: "lexes a ta \<Longrightarrow> lexes_done (a @ '','') (ta @ [TComma])"
  using lexes_delim [of a ta "CHR '',''" "[TComma]"] by (simp add: lexer_eval)

lemma delim_semi: "lexes a ta \<Longrightarrow> lexes_done (a @ '';'') (ta @ [TSemi])"
  using lexes_delim [of a ta "CHR '';''" "[TSemi]"] by (simp add: lexer_eval)

lemma operands_num: "operands [TNum v]"
  by (simp add: operands_def)

lemma operands_id: "s \<notin> set reserved \<Longrightarrow> operands [TId s]"
  by (simp add: operands_def)

lemma operands_op: "operands a \<Longrightarrow> operands b \<Longrightarrow> operands (a @ TOp o' # b)"
  unfolding operands_def
proof (intro allI)
  fix sq stk
  assume a: "\<forall>sq stk. \<exists>e sq'. prun a (Want, sq, stk) = Some (Have e, sq', stk)"
    and b: "\<forall>sq stk. \<exists>e sq'. prun b (Want, sq, stk) = Some (Have e, sq', stk)"
  from a obtain e1 s1 where 1: "prun a (Want, sq, stk) = Some (Have e1, s1, stk)" by blast
  from b obtain e2 s2 where 2: "prun b (Want, (e1, o') # s1, stk) = Some (Have e2, s2, stk)" by blast
  show "\<exists>e sq'. prun (a @ TOp o' # b) (Want, sq, stk) = Some (Have e, sq', stk)"
    by (simp add: prun_append 1 2)
qed

lemma operands_group: "operands a \<Longrightarrow> operands (TLP # a @ [TRP])"
  unfolding operands_def
proof (intro allI)
  fix sq stk
  assume a: "\<forall>sq stk. \<exists>e sq'. prun a (Want, sq, stk) = Some (Have e, sq', stk)"
  from a obtain e1 s1 where 1: "prun a (Want, [], Group sq # stk) = Some (Have e1, s1, Group sq # stk)"
    by blast
  show "\<exists>e sq'. prun (TLP # a @ [TRP]) (Want, sq, stk) = Some (Have e, sq', stk)"
    by (simp add: prun_append 1)
qed

lemma operands_call1:
  "s \<notin> set reserved \<Longrightarrow> operands a \<Longrightarrow> operands (TId s # TLP # a @ [TRP])"
  unfolding operands_def
proof (intro allI)
  fix sq stk
  assume r: "s \<notin> set reserved"
    and a: "\<forall>sq stk. \<exists>e sq'. prun a (Want, sq, stk) = Some (Have e, sq', stk)"
  from a obtain e1 s1 where 1:
    "prun a (Want, [], CallF s [] sq # stk) = Some (Have e1, s1, CallF s [] sq # stk)"
    by blast
  show "\<exists>e sq'. prun (TId s # TLP # a @ [TRP]) (Want, sq, stk) = Some (Have e, sq', stk)"
    using r by (simp add: prun_append 1)
qed

lemma operands_call3:
  "s \<notin> set reserved \<Longrightarrow> operands a \<Longrightarrow> operands b \<Longrightarrow> operands c \<Longrightarrow>
   operands (TId s # TLP # a @ TComma # b @ TComma # c @ [TRP])"
  unfolding operands_def
proof (intro allI)
  fix sq stk
  assume r: "s \<notin> set reserved"
    and a: "\<forall>sq stk. \<exists>e sq'. prun a (Want, sq, stk) = Some (Have e, sq', stk)"
    and b: "\<forall>sq stk. \<exists>e sq'. prun b (Want, sq, stk) = Some (Have e, sq', stk)"
    and c: "\<forall>sq stk. \<exists>e sq'. prun c (Want, sq, stk) = Some (Have e, sq', stk)"
  from a obtain e1 s1 where 1:
    "prun a (Want, [], CallF s [] sq # stk) = Some (Have e1, s1, CallF s [] sq # stk)"
    by blast
  from b obtain e2 s2 where 2:
    "prun b (Want, [], CallF s [build s1 e1] sq # stk)
       = Some (Have e2, s2, CallF s [build s1 e1] sq # stk)"
    by blast
  from c obtain e3 s3 where 3:
    "prun c (Want, [], CallF s [build s1 e1, build s2 e2] sq # stk)
       = Some (Have e3, s3, CallF s [build s1 e1, build s2 e2] sq # stk)"
    by blast
  show "\<exists>e sq'. prun (TId s # TLP # a @ TComma # b @ TComma # c @ [TRP]) (Want, sq, stk)
                  = Some (Have e, sq', stk)"
    using r by (simp add: prun_append 1 2 3)
qed

lemma lex_var_times:
  "v = ''x'' \<or> v = ''z'' \<Longrightarrow> lexes_done (v @ ''*'') [TId v, TOp Mul]"
  by (auto simp: lexes_done_def lexer_eval)

lemma var_free: "''x'' \<notin> set reserved" "''z'' \<notin> set reserved"
  by (simp_all add: reserved_def)

lemma well_formed_number: "0 \<le> x \<Longrightarrow> well_formed (toFixed f x)"
  using lexes_toFixed [of x f] operands_num by (auto simp: well_formed_def)

lemma well_formed_scaled:
  assumes "v = ''x'' \<or> v = ''z''" and "0 \<le> x"
  shows "well_formed (v @ ''*'' @ toFixed f x)"
proof -
  from lexes_toFixed [OF assms(2), of f] obtain n where n: "lexes (toFixed f x) [TNum n]" ..
  have "lexes ((v @ ''*'') @ toFixed f x) ([TId v, TOp Mul] @ [TNum n])"
    using lex_var_times [OF assms(1)] n by (rule lexes_done_then)
  moreover have "operands ([TId v] @ TOp Mul # [TNum n])"
    using assms(1) var_free by (intro operands_op operands_id operands_num) auto
  ultimately show ?thesis unfolding well_formed_def by (intro exI [of _ "[TId v, TOp Mul, TNum n]"]) simp
qed

lemma lex_open: "lexes_done ''('' [TLP]"
  by (simp add: lexes_done_def lexer_eval)

lemma lex_op:
  "o' \<in> set ops \<Longrightarrow> \<exists>b. lexes_done (o' @ '' '') [TOp b]"
  by (auto simp: ops_def lexes_done_def lexer_eval)

lemma well_formed_binary:
  assumes "well_formed a" and "well_formed b" and "o' \<in> set ops"
  shows "well_formed (''('' @ a @ '' '' @ o' @ '' '' @ b @ '')'')"
proof -
  from assms(1) obtain ta where ta: "lexes a ta" "operands ta" unfolding well_formed_def by blast
  from assms(2) obtain tb where tb: "lexes b tb" "operands tb" unfolding well_formed_def by blast
  from lex_op [OF assms(3)] obtain bo where bo: "lexes_done (o' @ '' '') [TOp bo]" ..
  have "lexes_done (''('' @ (a @ '' '') @ (o' @ '' '') @ (b @ '')'')) ([TLP] @ ta @ [TOp bo] @ (tb @ [TRP]))"
    by (intro lexes_done_append lex_open delim_space delim_close ta tb bo)
  then have "lexes (''('' @ a @ '' '' @ o' @ '' '' @ b @ '')'') (TLP # (ta @ TOp bo # tb) @ [TRP])"
    by (simp add: lexes_done_lexes)
  moreover have "operands (TLP # (ta @ TOp bo # tb) @ [TRP])"
    by (intro operands_group operands_op ta tb)
  ultimately show ?thesis unfolding well_formed_def by blast
qed

lemma lex_callee:
  "fn \<in> set funcs \<union> set funcs2 \<Longrightarrow> lexes_done (fn @ ''('') [TId fn, TLP] \<and> fn \<notin> set reserved"
  by (auto simp: funcs_def funcs2_def lexes_done_def lexer_eval reserved_def)

lemma well_formed_unary:
  assumes "fn \<in> set funcs \<union> set funcs2" and "well_formed a"
  shows "well_formed (fn @ ''('' @ a @ '')'')"
proof -
  from assms(2) obtain ta where ta: "lexes a ta" "operands ta" unfolding well_formed_def by blast
  note c = lex_callee [OF assms(1)]
  have "lexes_done ((fn @ ''('') @ (a @ '')'')) ([TId fn, TLP] @ (ta @ [TRP]))"
    by (intro lexes_done_append delim_close ta c [THEN conjunct1])
  then have "lexes (fn @ ''('' @ a @ '')'') (TId fn # TLP # ta @ [TRP])"
    by (simp add: lexes_done_lexes)
  moreover have "operands (TId fn # TLP # ta @ [TRP])"
    by (intro operands_call1 ta c [THEN conjunct2])
  ultimately show ?thesis unfolding well_formed_def by blast
qed

lemma lex_noise_name:
  "n \<in> set noise \<union> toLowerCase ` set noiseTypes \<Longrightarrow>
   lexes_done (n @ ''(x*'') [TId n, TLP, TId ''x'', TOp Mul] \<and> n \<notin> set reserved"
  by (auto simp: noise_def noiseTypes_def toLowerCase_def lexes_done_def lexer_eval reserved_def)

lemma lex_space: "lexes_done '' '' []"
  by (simp add: lexes_done_def lexer_eval)

lemma lex_z_times: "lexes_done '' z*'' [TId ''z'', TOp Mul]"
  by (simp add: lexes_done_def lexer_eval)

lemma lex_times: "lexes_done '' * '' [TOp Mul]"
  by (simp add: lexes_done_def lexer_eval)

lemma lex_zero: "\<exists>v. lexes ''0'' [TNum v]"
  by (rule lexes_integer) (simp_all add: digit_def)

lemma well_formed_noise_call:
  assumes name: "n \<in> set noise \<union> toLowerCase ` set noiseTypes"
    and n1: "lexes s1 [TNum v1]" and n2: "lexes s2 [TNum v2]" and n3: "lexes s3 [TNum v3]"
  shows "well_formed (n @ ''(x*'' @ s1 @ '', 0, z*'' @ s2 @ '') * '' @ s3)"
proof -
  note nm = lex_noise_name [OF name]
  from lex_zero obtain v0 where v0: "lexes ''0'' [TNum v0]" ..
  have "lexes ((n @ ''(x*'') @ (s1 @ '','') @ '' '' @ (''0'' @ '','') @ '' z*'' @ (s2 @ '')'')
                 @ '' * '' @ s3)
          ([TId n, TLP, TId ''x'', TOp Mul] @ ([TNum v1] @ [TComma]) @ [] @ ([TNum v0] @ [TComma])
             @ [TId ''z'', TOp Mul] @ ([TNum v2] @ [TRP]) @ [TOp Mul] @ [TNum v3])"
    by (intro lexes_done_then lexes_done_append nm [THEN conjunct1] delim_comma delim_close
          lex_space lex_z_times lex_times n1 n2 n3 v0)
  then have l: "lexes (n @ ''(x*'' @ s1 @ '', 0, z*'' @ s2 @ '') * '' @ s3)
          ((TId n # TLP # ([TId ''x''] @ TOp Mul # [TNum v1]) @ TComma # [TNum v0]
              @ TComma # ([TId ''z''] @ TOp Mul # [TNum v2]) @ [TRP]) @ TOp Mul # [TNum v3])"
    by simp
  have "operands ((TId n # TLP # ([TId ''x''] @ TOp Mul # [TNum v1]) @ TComma # [TNum v0]
              @ TComma # ([TId ''z''] @ TOp Mul # [TNum v2]) @ [TRP]) @ TOp Mul # [TNum v3])"
    by (intro operands_op operands_call3 operands_num operands_id var_free nm [THEN conjunct2])
  with l show ?thesis unfolding well_formed_def by blast
qed

lemma well_formed_noise:
  assumes "n \<in> set noise"
  shows "well_formed (n @ ''(x*0.05, 0, z*0.05) * 10'')"
proof -
  have a: "\<exists>v. lexes (''0'' @ ''.'' @ ''05'') [TNum v]"
    by (rule lexes_decimal) (simp_all add: digit_def)
  have b: "\<exists>v. lexes ''10'' [TNum v]"
    by (rule lexes_integer) (simp_all add: digit_def)
  from a obtain v1 where v1: "lexes ''0.05'' [TNum v1]" by auto
  from b obtain v3 where v3: "lexes ''10'' [TNum v3]" ..
  have "well_formed (n @ ''(x*'' @ ''0.05'' @ '', 0, z*'' @ ''0.05'' @ '') * '' @ ''10'')"
    using assms by (intro well_formed_noise_call [OF _ v1 v1 v3]) simp
  then show ?thesis by simp
qed

lemma well_formed_noise2:
  assumes "k \<in> set noiseTypes" and "0 \<le> x1" and "0 \<le> x2" and "0 \<le> x3"
  shows "well_formed (toLowerCase k @ ''(x*'' @ toFixed 3 x1 @ '', 0, z*'' @ toFixed 3 x2
                        @ '') * '' @ toFixed 0 x3)"
proof -
  from lexes_toFixed [OF assms(2), of 3] obtain v1 where v1: "lexes (toFixed 3 x1) [TNum v1]" ..
  from lexes_toFixed [OF assms(3), of 3] obtain v2 where v2: "lexes (toFixed 3 x2) [TNum v2]" ..
  from lexes_toFixed [OF assms(4), of 0] obtain v3 where v3: "lexes (toFixed 0 x3) [TNum v3]" ..
  show ?thesis using assms(1) by (intro well_formed_noise_call [OF _ v1 v2 v3]) simp
qed

lemma pick_in:
  assumes "0 \<le> r" and "r < 1" and "arr \<noteq> []"
  shows "pick arr r \<in> set arr"
proof -
  let ?n = "real (length arr)"
  have pos: "0 < ?n" using assms(3) by simp
  have "0 \<le> r * ?n" using assms(1) by simp
  then have lo: "0 \<le> \<lfloor>r * ?n\<rfloor>" by simp
  have "r * ?n < ?n" using assms(2) pos by simp
  then have hi: "\<lfloor>r * ?n\<rfloor> < int (length arr)" by (simp add: floor_less_iff)
  define k where "k = \<lfloor>r * ?n\<rfloor>"
  have "nat k < length arr" using lo hi unfolding k_def [symmetric] by linarith
  then have "arr ! nat k \<in> set arr" by simp
  moreover have "pick arr r = arr ! nat k"
    using lo hi unfolding k_def [symmetric] by (simp add: pick_def Let_def k_def)
  ultimately show ?thesis by simp
qed

lemma unit_shd: "unit_stream rnd \<Longrightarrow> 0 \<le> shd rnd \<and> shd rnd < 1"
  by (simp add: unit_stream_def shd_sset)

lemma unit_stl: "unit_stream rnd \<Longrightarrow> unit_stream (stl rnd)"
  by (auto simp: unit_stream_def dest: stl_sset)

lemma unit_sub: "unit_stream rnd \<Longrightarrow> sset rnd' \<subseteq> sset rnd \<Longrightarrow> unit_stream rnd'"
  by (auto simp: unit_stream_def)

lemma sset_stl: "sset (stl rnd) \<subseteq> sset rnd"
  by (auto dest: stl_sset)

lemma genExpr_well_formed:
  "unit_stream rnd \<Longrightarrow>
   well_formed (fst (genExpr depth rnd)) \<and> sset (snd (genExpr depth rnd)) \<subseteq> sset rnd"
proof (induction depth rnd rule: genExpr.induct)
  case (1 depth rnd)
  note u = "1.prems"
  note u1 = unit_stl [OF u]
  note u2 = unit_stl [OF u1]
  show ?case
  proof (cases "depth \<le> 0")
    case True
    have a: "0 \<le> shd (stl (stl rnd)) * 0.15" using unit_shd [OF u2] by simp
    have b: "0 \<le> shd (stl rnd) * 10" using unit_shd [OF u1] by simp
    have s2: "sset (stl (stl rnd)) \<subseteq> sset rnd" using sset_stl [of rnd] sset_stl [of "stl rnd"] by blast
    have s3: "sset (stl (stl (stl rnd))) \<subseteq> sset rnd" using s2 sset_stl [of "stl (stl rnd)"] by blast
    show ?thesis
      using True sset_stl [of rnd] s2 s3 well_formed_number [OF b, of 1]
        well_formed_scaled [OF _ a, of "''x''" 3] well_formed_scaled [OF _ a, of "''z''" 3]
      by (subst (1 2) genExpr.simps) (simp add: Let_def)
  next
    case False
    show ?thesis
    proof (cases "shd rnd < 0.3")
      case bin: True
      obtain a rnd2 where ra: "genExpr (depth - 1) (stl rnd) = (a, rnd2)"
        by (cases "genExpr (depth - 1) (stl rnd)")
      obtain b rnd3 where rb: "genExpr (depth - 1) (stl rnd2) = (b, rnd3)"
        by (cases "genExpr (depth - 1) (stl rnd2)")
      from "1.IH"(1) [OF False refl refl _ u1] bin ra
      have wa: "well_formed a" and sa: "sset rnd2 \<subseteq> sset (stl rnd)" by simp_all
      have ua: "unit_stream rnd2" using u1 sa by (rule unit_sub)
      from "1.IH"(2) [OF False refl refl _ ra [symmetric] unit_stl [OF ua]] bin rb
      have wb: "well_formed b" and sb: "sset rnd3 \<subseteq> sset (stl rnd2)" by simp_all
      have o: "pick ops (shd rnd2) \<in> set ops"
        using unit_shd [OF ua] by (intro pick_in) (simp_all add: ops_def)
      have "sset rnd3 \<subseteq> sset rnd" using sb sa sset_stl [of rnd2] sset_stl [of rnd] by blast
      then show ?thesis
        using False bin well_formed_binary [OF wa wb o]
        by (subst (1 2) genExpr.simps) (simp add: Let_def ra rb)
    next
      case nb: False
      show ?thesis
      proof (cases "shd rnd < 0.6")
        case un: True
        obtain a rnd2 where ra: "genExpr (depth - 1) (stl (stl rnd)) = (a, rnd2)"
          by (cases "genExpr (depth - 1) (stl (stl rnd))")
        from "1.IH"(3) [OF False refl refl _ _ u2] nb un ra
        have wa: "well_formed a" and sa: "sset rnd2 \<subseteq> sset (stl (stl rnd))" by simp_all
        have "funcs \<noteq> []" by (simp add: funcs_def)
        then have "pick funcs (shd (stl rnd)) \<in> set funcs"
          using unit_shd [OF u1] by (intro pick_in) simp_all
        then have f: "pick funcs (shd (stl rnd)) \<in> set funcs \<union> set funcs2" ..
        have "sset rnd2 \<subseteq> sset rnd" using sa sset_stl [of "stl rnd"] sset_stl [of rnd] by blast
        then show ?thesis
          using False nb un well_formed_unary [OF f wa]
          by (subst (1 2) genExpr.simps) (simp add: Let_def ra)
      next
        case no: False
        have n: "pick noise (shd (stl rnd)) \<in> set noise"
          using unit_shd [OF u1] by (intro pick_in) (simp_all add: noise_def)
        show ?thesis
          using False nb no well_formed_noise [OF n] sset_stl [of rnd] sset_stl [of "stl rnd"]
          by (subst (1 2) genExpr.simps) (auto simp add: Let_def)
      qed
    qed
  qed
qed

lemma genExpr2_well_formed:
  "unit_stream rnd \<Longrightarrow> noiseKey \<in> set noiseTypes \<Longrightarrow>
   well_formed (fst (genExpr2 depth noiseKey rnd))
   \<and> sset (snd (genExpr2 depth noiseKey rnd)) \<subseteq> sset rnd"
proof (induction depth noiseKey rnd rule: genExpr2.induct)
  case (1 depth noiseKey rnd)
  note u = "1.prems"(1) and key = "1.prems"(2)
  note u1 = unit_stl [OF u]
  note u2 = unit_stl [OF u1]
  note u3 = unit_stl [OF u2]
  have s2: "sset (stl (stl rnd)) \<subseteq> sset rnd" using sset_stl [of rnd] sset_stl [of "stl rnd"] by blast
  have s3: "sset (stl (stl (stl rnd))) \<subseteq> sset rnd" using s2 sset_stl [of "stl (stl rnd)"] by blast
  have s4: "sset (stl (stl (stl (stl rnd)))) \<subseteq> sset rnd"
    using s3 sset_stl [of "stl (stl (stl rnd))"] by blast
  show ?case
  proof (cases "depth \<le> 0")
    case True
    have a: "0 \<le> shd (stl (stl rnd)) * 0.15 + 0.01" using unit_shd [OF u2] by simp
    have b: "0 \<le> shd (stl rnd) * 15" using unit_shd [OF u1] by simp
    show ?thesis
      using True sset_stl [of rnd] s2 s3 well_formed_number [OF b, of 1]
        well_formed_scaled [OF _ a, of "''x''" 3] well_formed_scaled [OF _ a, of "''z''" 3]
      by (subst (1 2) genExpr2.simps) (simp add: Let_def)
  next
    case False
    show ?thesis
    proof (cases "shd rnd < 0.3")
      case bin: True
      obtain a rnd2 where ra: "genExpr2 (depth - 1) noiseKey (stl rnd) = (a, rnd2)"
        by (cases "genExpr2 (depth - 1) noiseKey (stl rnd)")
      obtain b rnd3 where rb: "genExpr2 (depth - 1) noiseKey (stl rnd2) = (b, rnd3)"
        by (cases "genExpr2 (depth - 1) noiseKey (stl rnd2)")
      from "1.IH"(1) [OF False refl refl _ u1 key] bin ra
      have wa: "well_formed a" and sa: "sset rnd2 \<subseteq> sset (stl rnd)" by simp_all
      have ua: "unit_stream rnd2" using u1 sa by (rule unit_sub)
      from "1.IH"(2) [OF False refl refl _ ra [symmetric] unit_stl [OF ua] key] bin rb
      have wb: "well_formed b" and sb: "sset rnd3 \<subseteq> sset (stl rnd2)" by simp_all
      have o: "pick ops (shd rnd2) \<in> set ops"
        using unit_shd [OF ua] by (intro pick_in) (simp_all add: ops_def)
      have "sset rnd3 \<subseteq> sset rnd" using sb sa sset_stl [of rnd2] sset_stl [of rnd] by blast
      then show ?thesis
        using False bin well_formed_binary [OF wa wb o]
        by (subst (1 2) genExpr2.simps) (simp add: Let_def ra rb)
    next
      case nb: False
      show ?thesis
      proof (cases "shd rnd < 0.6")
        case un: True
        obtain a rnd2 where ra: "genExpr2 (depth - 1) noiseKey (stl (stl rnd)) = (a, rnd2)"
          by (cases "genExpr2 (depth - 1) noiseKey (stl (stl rnd))")
        from "1.IH"(3) [OF False refl refl _ _ u2 key] nb un ra
        have wa: "well_formed a" and sa: "sset rnd2 \<subseteq> sset (stl (stl rnd))" by simp_all
        have "funcs2 \<noteq> []" by (simp add: funcs2_def)
        then have "pick funcs2 (shd (stl rnd)) \<in> set funcs2"
          using unit_shd [OF u1] by (intro pick_in) simp_all
        then have f: "pick funcs2 (shd (stl rnd)) \<in> set funcs \<union> set funcs2" ..
        have "sset rnd2 \<subseteq> sset rnd" using sa s2 by blast
        then show ?thesis
          using False nb un well_formed_unary [OF f wa]
          by (subst (1 2) genExpr2.simps) (simp add: Let_def ra)
      next
        case no: False
        have x1: "0 \<le> shd (stl rnd) * 0.1" using unit_shd [OF u1] by simp
        have x2: "0 \<le> shd (stl (stl rnd)) * 0.1" using unit_shd [OF u2] by simp
        have x3: "0 \<le> shd (stl (stl (stl rnd))) * 20 + 5" using unit_shd [OF u3] by simp
        show ?thesis
          using False nb no well_formed_noise2 [OF key x1 x2 x3] s4
          by (subst (1 2) genExpr2.simps) (simp add: Let_def)
      qed
    qed
  qed
qed

lemma lex_prefix:
  "lexes_done ''with(C){return '' [TId ''with'', TLP, TId ''C'', TRP, TLB, TId ''return'']"
  by (simp add: lexes_done_def lexer_eval)

lemma lex_suffix: "lexes_done ''}'' [TRB]"
  by (simp add: lexes_done_def lexer_eval)

lemma engine_accepts:
  assumes "well_formed g"
  shows "\<exists>f. js_engine (body g) = Inr f"
proof -
  from assms obtain ts where l: "lexes g ts" and p: "operands ts"
    unfolding well_formed_def by blast
  have "lexes_done (''with(C){return '' @ (g @ '';'') @ ''}'')
          ([TId ''with'', TLP, TId ''C'', TRP, TLB, TId ''return''] @ (ts @ [TSemi]) @ [TRB])"
    by (intro lexes_done_append lex_prefix lex_suffix delim_semi l)
  then have run: "lexrun (body g) (Idle, [])
               = Some (Idle, rev ([TId ''with'', TLP, TId ''C'', TRP, TLB, TId ''return'']
                                    @ ts @ [TSemi, TRB]))"
    by (simp add: lexes_done_def body_def)
  define toks where
    "toks = [TId ''with'', TLP, TId ''C'', TRP, TLB, TId ''return''] @ ts @ [TSemi, TRB]"
  have lx: "lex (body g) = Some toks"
    unfolding lex_def run toks_def [symmetric] by simp
  have uw: "unwrap toks = Some ts"
    by (simp add: unwrap_def toks_def)
  from p obtain e sq where "prun ts (Want, [], []) = Some (Have e, sq, [])"
    unfolding operands_def by blast
  then have "parse ts = Some (build sq e)" by (simp add: parse_def)
  then show ?thesis unfolding js_engine_def lx by (simp add: uw)
qed

lemma digits_small: "n < 10 \<Longrightarrow> digits n = [digit_char n]"
  by (subst digits.simps) simp

lemma digits_large: "10 \<le> n \<Longrightarrow> digits n = digits (n div 10) @ [digit_char (n mod 10)]"
  by (subst digits.simps) simp

lemma alternate_sset: "r \<in> sset s \<Longrightarrow> s = alternate a b \<or> s = alternate b a \<Longrightarrow> r = a \<or> r = b"
proof (induction arbitrary: a b rule: sset_induct)
  case (shd s)
  then show ?case by auto
next
  case (stl s y)
  from stl.prems have "stl s = alternate b a \<or> stl s = alternate a b" by auto
  with stl.IH [of b a] show ?case by auto
qed

lemma alternate_unit:
  "0 \<le> a \<Longrightarrow> a < 1 \<Longrightarrow> 0 \<le> b \<Longrightarrow> b < 1 \<Longrightarrow> \<forall>r \<in> sset (alternate a b). 0 \<le> r \<and> r < 1"
  using alternate_sset [of _ "alternate a b" a b] by auto

lemmas generator_eval =
  genExpr.simps genExpr2.simps pick_def funcs_def funcs2_def ops_def noise_def noiseTypes_def
  toLowerCase_def toFixed_def Let_def digits_small digits_large digit_char_def

lemma sample_text:
  "fst (genExpr 2 (alternate (1/5) (7/10))) = ''(simplex(x*0.05, 0, z*0.05) * 10 * (2.0 * z*0.030))''"
  by (simp add: generator_eval)

lemma sample_text2:
  "fst (genExpr2 2 ''Perlin'' (alternate (1/5) (7/10)))
     = ''(perlin(x*0.020, 0, z*0.070) * 9 * (3.0 * z*0.040))''"
  by (simp add: generator_eval)

text \<open>
  C9. \<open>Generator.genExpr\<close> is a total function of the depth budget and the random
  numbers: the recursion is on the depth, which every recursive call lowers by 1, and a
  depth of 0 or less is a base case. For every depth and every stream of numbers in the
  unit interval it returns a text that the engine turns into a callable; so does the
  variant with a noise key taken from the noise types.
\<close>

theorem genExpr_terminates_valid:
  assumes "\<forall>r \<in> sset rnd. 0 \<le> r \<and> r < 1" and "noiseKey \<in> set noiseTypes"
  shows "(\<exists>formula rest f. genExpr depth rnd = (formula, rest) \<and> js_engine (body formula) = Inr f)
       \<and> (\<exists>formula rest f. genExpr2 depth noiseKey rnd = (formula, rest)
              \<and> js_engine (body formula) = Inr f)"
proof -
  have u: "unit_stream rnd" using assms(1) by (simp add: unit_stream_def)
  from engine_accepts [OF genExpr_well_formed [OF u, THEN conjunct1, of depth]]
  obtain f where f: "js_engine (body (fst (genExpr depth rnd))) = Inr f" ..
  from engine_accepts [OF genExpr2_well_formed [OF u assms(2), THEN conjunct1, of depth]]
  obtain f2 where f2: "js_engine (body (fst (genExpr2 depth noiseKey rnd))) = Inr f2" ..
  show ?thesis
    using f f2 by (metis prod.collapse)
qed

theorem genExpr_terminates_valid_witness:
  "''Perlin'' \<in> set noiseTypes
   \<and> fst (genExpr 2 (alternate (1/5) (7/10)))
       = ''(simplex(x*0.05, 0, z*0.05) * 10 * (2.0 * z*0.030))''
   \<and> \<not> isl (js_engine (body ''(simplex(x*0.05, 0, z*0.05) * 10 * (2.0 * z*0.030))''))
   \<and> fst (genExpr2 2 ''Perlin'' (alternate (1/5) (7/10)))
       = ''(perlin(x*0.020, 0, z*0.070) * 9 * (3.0 * z*0.040))''
   \<and> \<not> isl (js_engine (body ''(perlin(x*0.020, 0, z*0.070) * 9 * (3.0 * z*0.040))''))"
proof -
  have u: "\<forall>r \<in> sset (alternate (1/5) (7/10)). 0 \<le> r \<and> r < 1"
    by (rule alternate_unit) simp_all
  have k: "''Perlin'' \<in> set noiseTypes" by (simp add: noiseTypes_def)
  note R = genExpr_terminates_valid [OF u k, of 2]
  from R [THEN conjunct1] obtain g1 rest f
    where "genExpr 2 (alternate (1/5) (7/10)) = (g1, rest)" "js_engine (body g1) = Inr f"
    by blast
  then have a: "\<not> isl (js_engine (body (fst (genExpr 2 (alternate (1/5) (7/10))))))" by simp
  from R [THEN conjunct2] obtain g2 rest2 f2
    where "genExpr2 2 ''Perlin'' (alternate (1/5) (7/10)) = (g2, rest2)"
      "js_engine (body g2) = Inr f2"
    by blast
  then have b: "\<not> isl (js_engine (body (fst (genExpr2 2 ''Perlin'' (alternate (1/5) (7/10))))))"
    by simp
  show ?thesis using k a b unfolding sample_text sample_text2 by blast
qed


end
